theory Spec2Isabelle
  imports Main "HOL-Library.Word" "HOL-Library.Signed_Division"
begin

unbundle bit_operations_syntax

section \<open>C integer types and operators\<close>

text \<open>
  The firmware is C for a 32-bit ARM core: \<open>short\<close>/\<open>int16_t\<close> and \<open>uint16_t\<close> are
  16-bit words, \<open>int\<close>/\<open>int32_t\<close> is a 32-bit word.  Operands narrower than \<open>int\<close> are
  promoted to \<open>int\<close> before arithmetic (\<open>scast\<close> for a signed, \<open>ucast\<close> for an unsigned
  operand), and a store into a narrower object keeps the low bits (\<open>ucast\<close>).  Addition,
  subtraction and multiplication on words wrap around.  C leaves signed overflow
  undefined; the two's complement target wraps, and so does the model.  The theorems
  below that speak about values in the integers say when nothing overflows.
\<close>

type_synonym int16_t = "16 word"
type_synonym uint16_t = "16 word"
type_synonym int32_t = "32 word"
type_synonym uint8_t = "8 word"

text \<open>C's \<open>/\<close> on \<open>int\<close>: the quotient is truncated towards zero.\<close>

definition c_div :: "int32_t \<Rightarrow> int32_t \<Rightarrow> int32_t" where
  "c_div a b = word_of_int (sint a sdiv sint b)"

text \<open>C's \<open>>>\<close> on a signed \<open>int\<close>: the arithmetic shift of the target compiler.\<close>

definition c_shr :: "int32_t \<Rightarrow> nat \<Rightarrow> int32_t" where
  "c_shr a n = signed_drop_bit n a"

section \<open>MPC\_math.c: the trigonometric helpers\<close>

text \<open>
  \<^verbatim>\<open>short limitTheta(short theta){
    if(theta < 0){ return ((360+theta) - 360*(1+(theta/360))); }
    else         { return (theta - 360*(theta/360)); } }\<close>
\<close>

definition limitTheta :: "int16_t \<Rightarrow> int16_t" where
  "limitTheta theta =
     (let t = (scast theta :: int32_t) in
      if theta <s 0 then ucast ((360 + t) - 360 * (1 + c_div t 360))
      else ucast (t - 360 * c_div t 360))"


text \<open>
  The six shared trigonometric values (\<^verbatim>\<open>short sin000,sin120,sin240,cos000,cos120,cos240;\<close>),
  written by \<open>computeSinCos\<close> and read by \<open>parkTransform\<close>.
\<close>

record trig_t =
  sin000 :: int16_t
  sin120 :: int16_t
  sin240 :: int16_t
  cos000 :: int16_t
  cos120 :: int16_t
  cos240 :: int16_t

text \<open>
  The struct \<open>qd_t\<close> with its members \<open>q\<close> and \<open>d\<close>.  Its declaration (mc\_type.h) is not
  among the sources; pwm\_curr\_fdbk.c stores \<open>(int16_t)\<close> values into the members
  (\<^verbatim>\<open>idq_ave.q = (int16_t)PWMC_LowPassFilter(...)\<close>), so they are \<open>int16_t\<close>, and the
  assignment of an \<open>int\<close> to a member keeps its low 16 bits.
\<close>

record qd_t =
  q :: int16_t
  d :: int16_t

text \<open>
  \<^verbatim>\<open>void parkTransform(short a, short b, short c, volatile qd_t *Xdq){
    Xdq->d = (sin000*a + sin240*b + sin120*c)*1000/768;
    Xdq->q = (cos000*a + cos240*b + cos120*c)*1000/768; }\<close>
  The right-hand sides are evaluated in \<open>int\<close> and then converted to the member's type.
\<close>

definition parkTransform_d :: "trig_t \<Rightarrow> int16_t \<Rightarrow> int16_t \<Rightarrow> int16_t \<Rightarrow> int32_t" where
  "parkTransform_d T a b c =
     c_div ((scast (sin000 T) * scast a + scast (sin240 T) * scast b + scast (sin120 T) * scast c) * 1000) 768"

definition parkTransform_q :: "trig_t \<Rightarrow> int16_t \<Rightarrow> int16_t \<Rightarrow> int16_t \<Rightarrow> int32_t" where
  "parkTransform_q T a b c =
     c_div ((scast (cos000 T) * scast a + scast (cos240 T) * scast b + scast (cos120 T) * scast c) * 1000) 768"

definition parkTransform :: "trig_t \<Rightarrow> int16_t \<Rightarrow> int16_t \<Rightarrow> int16_t \<Rightarrow> qd_t \<Rightarrow> qd_t" where
  "parkTransform T a b c Xdq =
     (let Xdq1 = Xdq\<lparr>d := ucast (parkTransform_d T a b c)\<rparr>
      in Xdq1\<lparr>q := ucast (parkTransform_q T a b c)\<rparr>)"

text \<open>Trigonometric values for an angle whose sine is 1 (scaled by 512), for the concrete runs.\<close>

definition trig0 :: trig_t where
  "trig0 = \<lparr>sin000 = 512, sin120 = - 256, sin240 = - 256, cos000 = 0, cos120 = - 443, cos240 = 443\<rparr>"

section \<open>pwm\_curr\_fdbk.c: the PWM and current feedback component\<close>

subsection \<open>Types\<close>

text \<open>
  The header pwm\_curr\_fdbk.h and mc\_type.h are not among the sources.  The handle is
  modelled with the members that pwm\_curr\_fdbk.c reads or writes, at the widths its
  casts and comparisons show (\<open>(uint16_t)\<close> stores into the duties and counters,
  \<open>(int32_t)\<close> widenings of \<open>PWMperiod\<close> and \<open>hT_Sqrt3\<close>, \<open>1U ==\<close> and \<open>0U ==\<close> tests,
  \<open>> 0\<close> on the currents, \<open>int32_t *\<close> for the filter buffers).  Further members of the
  struct, and the state of the topology-specific component that embeds it, live in the
  extension of the record.  The sector macros \<open>SECTOR_1\<close> .. \<open>SECTOR_6\<close> are kept symbolic.
  The members of \<open>alphabeta_t\<close> are \<open>int16_t\<close>: the code widens them with \<open>(int32_t)\<close> and
  stores \<open>ialpha_beta.alpha\<close> into \<open>IaEst\<close>.  \<open>ab_t\<close> is the pair of the phase currents a and b.
\<close>

datatype sector_t = SECTOR_1 | SECTOR_2 | SECTOR_3 | SECTOR_4 | SECTOR_5 | SECTOR_6

record alphabeta_t =
  alpha :: int16_t
  beta :: int16_t

type_synonym ab_t = "int16_t \<times> int16_t"

datatype CRCAction_t = CRC_START | CRC_EXEC

record PWMC_Handle_t =
  hT_Sqrt3 :: uint16_t
  CntPhA :: uint16_t
  CntPhB :: uint16_t
  CntPhC :: uint16_t
  Sector :: sector_t
  lowDuty :: uint16_t
  midDuty :: uint16_t
  highDuty :: uint16_t
  TurnOnLowSidesAction :: bool
  OffCalibrWaitTimeCounter :: uint16_t
  Ia :: int16_t
  Ib :: int16_t
  Ic :: int16_t
  DTTest :: uint16_t
  PWMperiod :: uint16_t
  OffCalibrWaitTicks :: uint16_t
  DTCompCnt :: uint16_t
  DPWM_Mode :: bool
  AlignFlag :: uint8_t
  IaEst :: int16_t
  IbEst :: int16_t
  IcEst :: int16_t
  LPFIdBuf :: int32_t
  LPFIqBuf :: int32_t
  LPFIqd_const :: int16_t

text \<open>
  The function pointer members of the handle.  A HOL record cannot hold functions over
  itself, so they are kept in a table of their own, over the type \<open>'h\<close> of the handle's
  data; \<open>None\<close> is \<open>MC_NULL\<close>.  A bound operation receives the handle and may update it.
\<close>

record ('h, 'o) PWMC_Fct_t =
  pFctGetPhaseCurrents :: "('h \<Rightarrow> ab_t \<Rightarrow> ab_t \<times> 'h) option"
  pFctSwitchOffPwm :: "('h \<Rightarrow> 'h) option"
  pFctSwitchOnPwm :: "('h \<Rightarrow> 'h) option"
  pFctCurrReadingCalib :: "('h \<Rightarrow> 'h) option"
  pFctTurnOnLowSides :: "('h \<Rightarrow> 'h) option"
  pFctSetADCSampPointSectX :: "('h \<Rightarrow> uint16_t \<times> 'h) option"
  pFctIsOverCurrentOccurred :: "('h \<Rightarrow> uint16_t \<times> 'h) option"
  pFctOCPSetReferenceVoltage :: "('h \<Rightarrow> uint16_t \<Rightarrow> 'h) option"
  pFctRLDetectionModeEnable :: "('h \<Rightarrow> 'h) option"
  pFctRLDetectionModeDisable :: "('h \<Rightarrow> 'h) option"
  pFctRLDetectionModeSetDuty :: "('h \<Rightarrow> uint16_t \<Rightarrow> uint16_t \<times> 'h) option"
  pFctSetOffsetCalib :: "('h \<Rightarrow> 'o \<Rightarrow> 'o \<times> 'h) option"
  pFctGetOffsetCalib :: "('h \<Rightarrow> 'o \<Rightarrow> 'o \<times> 'h) option"

text \<open>
  What the build fixes: the two configuration macros that select code in this file, and
  the status codes \<open>MC_NO_FAULTS\<close> and \<open>MC_FOC_DURATION\<close> of mc\_type.h.
\<close>

record build_t =
  NULL_PTR_PWR_CUR_FDB :: bool
  FULL_MISRA_C_COMPLIANCY_PWM_CURR :: bool
  MC_NO_FAULTS :: uint16_t
  MC_FOC_DURATION :: uint16_t

subsection \<open>Dispatch through the function pointers\<close>

text \<open>
  C leaves a read through a null handle and a call through a null function pointer
  undefined; the model returns a fault there.  A run returns its value, the handle and
  the list of the operations it invoked, in order.
\<close>

datatype capability =
    GetPhaseCurrents | SwitchOffPwm | SwitchOnPwm | CurrReadingCalib | TurnOnLowSides
  | SetADCSampPointSectX | IsOverCurrentOccurred | OCPSetReferenceVoltage
  | RLDetectionModeEnable | RLDetectionModeDisable | RLDetectionModeSetDuty
  | SetOffsetCalib | GetOffsetCalib

datatype fault = NullHandle | NullFct capability | NullBuffer

type_synonym ('r, 'h) outcome = "fault + ('r \<times> 'h \<times> capability list)"

text \<open>\<^verbatim>\<open>pHandle->pFct(pHandle)\<close> for an operation returning nothing, and one returning a value.\<close>

definition call_void :: "capability \<Rightarrow> ('h \<Rightarrow> 'h) option \<Rightarrow> 'h \<Rightarrow> (unit, 'h) outcome" where
  "call_void c f h = (case f of None \<Rightarrow> Inl (NullFct c) | Some g \<Rightarrow> Inr ((), g h, [c]))"

definition call_ret :: "capability \<Rightarrow> ('h \<Rightarrow> 'r \<times> 'h) option \<Rightarrow> 'h \<Rightarrow> ('r, 'h) outcome" where
  "call_ret c f h =
     (case f of None \<Rightarrow> Inl (NullFct c) | Some g \<Rightarrow> (case g h of (r, h') \<Rightarrow> Inr (r, h', [c])))"

text \<open>
  The frame around most bodies:
  \<^verbatim>\<open>#ifdef NULL_PTR_PWR_CUR_FDB
  if (MC_NULL == pHandle) { /* Nothing to do */ } else {
#endif
    body
#ifdef NULL_PTR_PWR_CUR_FDB
  }
#endif\<close>
  \<open>chk\<close> says whether the test is compiled, \<open>neutral\<close> is what is returned for a null handle.
\<close>

definition on_handle ::
  "bool \<Rightarrow> 'r \<Rightarrow> 'h option \<Rightarrow> ('h \<Rightarrow> ('r, 'h) outcome) \<Rightarrow> fault + ('r \<times> 'h option \<times> capability list)" where
  "on_handle chk neutral pHandle body =
     (case pHandle of
        None \<Rightarrow> if chk then Inr (neutral, None, []) else Inl NullHandle
      | Some h \<Rightarrow> (case body h of Inl e \<Rightarrow> Inl e | Inr (r, h', cs) \<Rightarrow> Inr (r, Some h', cs)))"

subsection \<open>PWMC\_Clear\<close>

definition PWMC_Clear ::
  "build_t \<Rightarrow> ('a PWMC_Handle_t_scheme) option \<Rightarrow> fault + (unit \<times> ('a PWMC_Handle_t_scheme) option \<times> capability list)" where
  "PWMC_Clear B pHandle =
     on_handle (NULL_PTR_PWR_CUR_FDB B) () pHandle
       (\<lambda>h. Inr ((), h\<lparr>IaEst := 0, IbEst := 0, IcEst := 0, LPFIdBuf := 0, LPFIqBuf := 0\<rparr>, []))"


subsection \<open>The dispatching functions\<close>

text \<open>
  \<open>PWMC_SetOffsetCalib\<close> and \<open>PWMC_GetOffsetCalib\<close> test the handle in every build; the
  others only when \<open>NULL_PTR_PWR_CUR_FDB\<close> is defined.
\<close>

definition PWMC_SetOffsetCalib ::
  "('h, 'o) PWMC_Fct_t \<Rightarrow> 'h option \<Rightarrow> 'o \<Rightarrow> fault + ('o \<times> 'h option \<times> capability list)" where
  "PWMC_SetOffsetCalib F pHandle offsets =
     on_handle True offsets pHandle
       (\<lambda>h. call_ret SetOffsetCalib (map_option (\<lambda>g h'. g h' offsets) (pFctSetOffsetCalib F)) h)"

definition PWMC_GetOffsetCalib ::
  "('h, 'o) PWMC_Fct_t \<Rightarrow> 'h option \<Rightarrow> 'o \<Rightarrow> fault + ('o \<times> 'h option \<times> capability list)" where
  "PWMC_GetOffsetCalib F pHandle offsets =
     on_handle True offsets pHandle
       (\<lambda>h. call_ret GetOffsetCalib (map_option (\<lambda>g h'. g h' offsets) (pFctGetOffsetCalib F)) h)"

definition PWMC_GetPhaseCurrents ::
  "build_t \<Rightarrow> ('h, 'o) PWMC_Fct_t \<Rightarrow> 'h option \<Rightarrow> ab_t \<Rightarrow> fault + (ab_t \<times> 'h option \<times> capability list)" where
  "PWMC_GetPhaseCurrents B F pHandle Iab =
     on_handle (NULL_PTR_PWR_CUR_FDB B) Iab pHandle
       (\<lambda>h. call_ret GetPhaseCurrents (map_option (\<lambda>g h'. g h' Iab) (pFctGetPhaseCurrents F)) h)"

definition PWMC_SwitchOffPWM ::
  "build_t \<Rightarrow> ('h, 'o) PWMC_Fct_t \<Rightarrow> 'h option \<Rightarrow> fault + (unit \<times> 'h option \<times> capability list)" where
  "PWMC_SwitchOffPWM B F pHandle =
     on_handle (NULL_PTR_PWR_CUR_FDB B) () pHandle (call_void SwitchOffPwm (pFctSwitchOffPwm F))"

definition PWMC_SwitchOnPWM ::
  "build_t \<Rightarrow> ('h, 'o) PWMC_Fct_t \<Rightarrow> 'h option \<Rightarrow> fault + (unit \<times> 'h option \<times> capability list)" where
  "PWMC_SwitchOnPWM B F pHandle =
     on_handle (NULL_PTR_PWR_CUR_FDB B) () pHandle (call_void SwitchOnPwm (pFctSwitchOnPwm F))"

definition PWMC_TurnOnLowSides ::
  "build_t \<Rightarrow> ('h, 'o) PWMC_Fct_t \<Rightarrow> 'h option \<Rightarrow> fault + (unit \<times> 'h option \<times> capability list)" where
  "PWMC_TurnOnLowSides B F pHandle =
     on_handle (NULL_PTR_PWR_CUR_FDB B) () pHandle (call_void TurnOnLowSides (pFctTurnOnLowSides F))"

definition PWMC_CheckOverCurrent ::
  "build_t \<Rightarrow> ('h, 'o) PWMC_Fct_t \<Rightarrow> 'h option \<Rightarrow> fault + (uint16_t \<times> 'h option \<times> capability list)" where
  "PWMC_CheckOverCurrent B F pHandle =
     on_handle (NULL_PTR_PWR_CUR_FDB B) (MC_NO_FAULTS B) pHandle
       (call_ret IsOverCurrentOccurred (pFctIsOverCurrentOccurred F))"

text \<open>
  The four functions that also test the function pointer, again only when
  \<open>NULL_PTR_PWR_CUR_FDB\<close> is defined:
  \<^verbatim>\<open>if ((MC_NULL == pHandle) || (MC_NULL == pHandle->pFct...)) { /* Nothing to do */ }\<close>
\<close>

definition PWMC_OCPSetReferenceVoltage ::
  "build_t \<Rightarrow> ('h, 'o) PWMC_Fct_t \<Rightarrow> 'h option \<Rightarrow> uint16_t \<Rightarrow> fault + (unit \<times> 'h option \<times> capability list)" where
  "PWMC_OCPSetReferenceVoltage B F pHandle hDACVref =
     on_handle (NULL_PTR_PWR_CUR_FDB B) () pHandle
       (\<lambda>h. if NULL_PTR_PWR_CUR_FDB B \<and> pFctOCPSetReferenceVoltage F = None then Inr ((), h, [])
            else call_void OCPSetReferenceVoltage
                   (map_option (\<lambda>g h'. g h' hDACVref) (pFctOCPSetReferenceVoltage F)) h)"

definition PWMC_RLDetectionModeEnable ::
  "build_t \<Rightarrow> ('h, 'o) PWMC_Fct_t \<Rightarrow> 'h option \<Rightarrow> fault + (unit \<times> 'h option \<times> capability list)" where
  "PWMC_RLDetectionModeEnable B F pHandle =
     on_handle (NULL_PTR_PWR_CUR_FDB B) () pHandle
       (\<lambda>h. if NULL_PTR_PWR_CUR_FDB B \<and> pFctRLDetectionModeEnable F = None then Inr ((), h, [])
            else call_void RLDetectionModeEnable (pFctRLDetectionModeEnable F) h)"

definition PWMC_RLDetectionModeDisable ::
  "build_t \<Rightarrow> ('h, 'o) PWMC_Fct_t \<Rightarrow> 'h option \<Rightarrow> fault + (unit \<times> 'h option \<times> capability list)" where
  "PWMC_RLDetectionModeDisable B F pHandle =
     on_handle (NULL_PTR_PWR_CUR_FDB B) () pHandle
       (\<lambda>h. if NULL_PTR_PWR_CUR_FDB B \<and> pFctRLDetectionModeDisable F = None then Inr ((), h, [])
            else call_void RLDetectionModeDisable (pFctRLDetectionModeDisable F) h)"

text \<open>
  \<^verbatim>\<open>uint16_t retVal = MC_FOC_DURATION;
 if ((MC_NULL == pHandle) || ( MC_NULL == pHandle->pFctRLDetectionModeSetDuty)) { }
 else { retVal = pHandle->pFctRLDetectionModeSetDuty(pHandle, hDuty); }\<close>
\<close>

definition PWMC_RLDetectionModeSetDuty ::
  "build_t \<Rightarrow> ('h, 'o) PWMC_Fct_t \<Rightarrow> 'h option \<Rightarrow> uint16_t \<Rightarrow> fault + (uint16_t \<times> 'h option \<times> capability list)" where
  "PWMC_RLDetectionModeSetDuty B F pHandle hDuty =
     on_handle (NULL_PTR_PWR_CUR_FDB B) (MC_FOC_DURATION B) pHandle
       (\<lambda>h. if NULL_PTR_PWR_CUR_FDB B \<and> pFctRLDetectionModeSetDuty F = None
            then Inr (MC_FOC_DURATION B, h, [])
            else call_ret RLDetectionModeSetDuty
                   (map_option (\<lambda>g h'. g h' hDuty) (pFctRLDetectionModeSetDuty F)) h)"

subsection \<open>PWMC\_SetPhaseVoltage\<close>

text \<open>
  Modelled from the spec: the macro \<open>MAX\<close> is defined in a header that is not among the
  sources; the spec has the counters clamped to a non-negative floor, which is the
  usual \<^verbatim>\<open>(((a) > (b)) ? (a) : (b))\<close> on \<open>int32_t\<close> operands (\<open>c_MAX\<close> here, as \<open>MAX\<close> is taken in HOL).
\<close>

definition c_MAX :: "int32_t \<Rightarrow> int32_t \<Rightarrow> int32_t" where
  "c_MAX x y = (if y <s x then x else y)"

text \<open>
  \<^verbatim>\<open>wUAlpha = Valfa_beta.alpha * (int32_t)pHandle->hT_Sqrt3;
  wUBeta = -(Valfa_beta.beta * ((int32_t)pHandle->PWMperiod)) * 2;
  wX = wUBeta;
  wY = (wUBeta + wUAlpha) / 2;
  wZ = (wUBeta - wUAlpha) / 2;\<close>
\<close>

definition wUAlpha :: "'a PWMC_Handle_t_scheme \<Rightarrow> alphabeta_t \<Rightarrow> int32_t" where
  "wUAlpha h Valfa_beta = scast (alpha Valfa_beta) * ucast (hT_Sqrt3 h)"

definition wUBeta :: "'a PWMC_Handle_t_scheme \<Rightarrow> alphabeta_t \<Rightarrow> int32_t" where
  "wUBeta h Valfa_beta = - (scast (beta Valfa_beta) * ucast (PWMperiod h)) * 2"

definition wX :: "'a PWMC_Handle_t_scheme \<Rightarrow> alphabeta_t \<Rightarrow> int32_t" where
  "wX h Valfa_beta = wUBeta h Valfa_beta"

definition wY :: "'a PWMC_Handle_t_scheme \<Rightarrow> alphabeta_t \<Rightarrow> int32_t" where
  "wY h Valfa_beta = c_div (wUBeta h Valfa_beta + wUAlpha h Valfa_beta) 2"

definition wZ :: "'a PWMC_Handle_t_scheme \<Rightarrow> alphabeta_t \<Rightarrow> int32_t" where
  "wZ h Valfa_beta = c_div (wUBeta h Valfa_beta - wUAlpha h Valfa_beta) 2"

text \<open>
  The sector calculation from \<open>wX\<close>, \<open>wY\<close>, \<open>wZ\<close> (lines 229 to 302): the sector, the
  three times \<open>(wTimePhA, wTimePhB, wTimePhC)\<close> and the three values stored as
  \<open>(lowDuty, midDuty, highDuty)\<close>.  \<open>P\<close> is \<open>(int32_t)pHandle->PWMperiod\<close>.
\<close>

definition svpwm_sector ::
  "int32_t \<Rightarrow> int32_t \<Rightarrow> int32_t \<Rightarrow> int32_t \<Rightarrow>
   sector_t \<times> (int32_t \<times> int32_t \<times> int32_t) \<times> (int32_t \<times> int32_t \<times> int32_t)" where
  "svpwm_sector P X Y Z =
     (if Y <s 0 then
        (if Z <s 0 then
           (let A = c_div P 4 + c_div (Y - Z) 262144;
                B = A + c_div Z 131072;
                C = A - c_div Y 131072
            in (SECTOR_5, (A, B, C), (C, A, B)))
         else if X \<le>s 0 then
           (let A = c_div P 4 + c_div (X - Z) 262144;
                B = A + c_div Z 131072;
                C = B - c_div X 131072
            in (SECTOR_4, (A, B, C), (C, B, A)))
         else
           (let A = c_div P 4 + c_div (Y - X) 262144;
                C = A - c_div Y 131072;
                B = C + c_div X 131072
            in (SECTOR_3, (A, B, C), (B, C, A))))
      else
        (if 0 \<le>s Z then
           (let A = c_div P 4 + c_div (Y - Z) 262144;
                B = A + c_div Z 131072;
                C = A - c_div Y 131072
            in (SECTOR_2, (A, B, C), (B, A, C)))
         else if X \<le>s 0 then
           (let A = c_div P 4 + c_div (Y - X) 262144;
                C = A - c_div Y 131072;
                B = C + c_div X 131072
            in (SECTOR_6, (A, B, C), (A, C, B)))
         else
           (let A = c_div P 4 + c_div (X - Z) 262144;
                B = A + c_div Z 131072;
                C = B - c_div X 131072
            in (SECTOR_1, (A, B, C), (A, B, C)))))"

text \<open>
  The three times of \<open>svpwm_sector\<close> computed on unbounded integers, with the same tests
  and the same truncating divisions; the word computation agrees with it while nothing
  overflows (\<open>svpwm_sector_sint\<close> below).
\<close>

definition svpwm_times_int :: "int \<Rightarrow> int \<Rightarrow> int \<Rightarrow> int \<Rightarrow> int \<times> int \<times> int" where
  "svpwm_times_int P X Y Z =
     (if Y < 0 then
        (if Z < 0 then
           (let A = P sdiv 4 + (Y - Z) sdiv 262144;
                B = A + Z sdiv 131072;
                C = A - Y sdiv 131072
            in (A, B, C))
         else if X \<le> 0 then
           (let A = P sdiv 4 + (X - Z) sdiv 262144;
                B = A + Z sdiv 131072;
                C = B - X sdiv 131072
            in (A, B, C))
         else
           (let A = P sdiv 4 + (Y - X) sdiv 262144;
                C = A - Y sdiv 131072;
                B = C + X sdiv 131072
            in (A, B, C)))
      else
        (if 0 \<le> Z then
           (let A = P sdiv 4 + (Y - Z) sdiv 262144;
                B = A + Z sdiv 131072;
                C = A - Y sdiv 131072
            in (A, B, C))
         else if X \<le> 0 then
           (let A = P sdiv 4 + (Y - X) sdiv 262144;
                C = A - Y sdiv 131072;
                B = C + X sdiv 131072
            in (A, B, C))
         else
           (let A = P sdiv 4 + (X - Z) sdiv 262144;
                B = A + Z sdiv 131072;
                C = B - X sdiv 131072
            in (A, B, C))))"

text \<open>
  Lines 221 to 306: the sector and duty members and the three counters before dead-time
  compensation, \<^verbatim>\<open>pHandle->CntPhA = (uint16_t)(MAX(wTimePhA, 0));\<close> and so on.
\<close>

definition PWMC_SetPhaseVoltage_duty ::
  "'a PWMC_Handle_t_scheme \<Rightarrow> alphabeta_t \<Rightarrow> 'a PWMC_Handle_t_scheme" where
  "PWMC_SetPhaseVoltage_duty h Valfa_beta =
     (case svpwm_sector (ucast (PWMperiod h)) (wX h Valfa_beta) (wY h Valfa_beta) (wZ h Valfa_beta) of
        (sec, (wTimePhA, wTimePhB, wTimePhC), (lo, mi, hi)) \<Rightarrow>
          h\<lparr>Sector := sec, lowDuty := ucast lo, midDuty := ucast mi, highDuty := ucast hi,
            CntPhA := ucast (c_MAX wTimePhA 0),
            CntPhB := ucast (c_MAX wTimePhB 0),
            CntPhC := ucast (c_MAX wTimePhC 0)\<rparr>)"

text \<open>
  Lines 308 to 337, the dead-time compensation:
  \<^verbatim>\<open>if (1U == pHandle->DTTest) {
      if (pHandle->Ia > 0) { pHandle->CntPhA += pHandle->DTCompCnt; }
      else                 { pHandle->CntPhA -= pHandle->DTCompCnt; }
      ... the same for Ib, CntPhB and for Ic, CntPhC }\<close>
  on \<open>uint16_t\<close> counters.
\<close>

definition PWMC_SetPhaseVoltage_DTComp ::
  "'a PWMC_Handle_t_scheme \<Rightarrow> 'a PWMC_Handle_t_scheme" where
  "PWMC_SetPhaseVoltage_DTComp h =
     (if DTTest h = 1 then
        h\<lparr>CntPhA := (if 0 <s Ia h then CntPhA h + DTCompCnt h else CntPhA h - DTCompCnt h),
          CntPhB := (if 0 <s Ib h then CntPhB h + DTCompCnt h else CntPhB h - DTCompCnt h),
          CntPhC := (if 0 <s Ic h then CntPhC h + DTCompCnt h else CntPhC h - DTCompCnt h)\<rparr>
      else h)"

text \<open>The handle as it is when the sampling point operation is invoked (line 338).\<close>

definition PWMC_SetPhaseVoltage_counters ::
  "'a PWMC_Handle_t_scheme \<Rightarrow> alphabeta_t \<Rightarrow> 'a PWMC_Handle_t_scheme" where
  "PWMC_SetPhaseVoltage_counters h Valfa_beta =
     PWMC_SetPhaseVoltage_DTComp (PWMC_SetPhaseVoltage_duty h Valfa_beta)"

text \<open>
  The whole function; for a null handle (when tested) \<^verbatim>\<open>returnValue = 0U\<close>, otherwise
  \<^verbatim>\<open>returnValue = pHandle->pFctSetADCSampPointSectX(pHandle);\<close>
\<close>

definition PWMC_SetPhaseVoltage ::
  "build_t \<Rightarrow> ('a PWMC_Handle_t_scheme, 'o) PWMC_Fct_t \<Rightarrow> ('a PWMC_Handle_t_scheme) option \<Rightarrow>
   alphabeta_t \<Rightarrow> fault + (uint16_t \<times> ('a PWMC_Handle_t_scheme) option \<times> capability list)" where
  "PWMC_SetPhaseVoltage B F pHandle Valfa_beta =
     on_handle (NULL_PTR_PWR_CUR_FDB B) 0 pHandle
       (\<lambda>h. call_ret SetADCSampPointSectX (pFctSetADCSampPointSectX F)
              (PWMC_SetPhaseVoltage_counters h Valfa_beta))"

subsection \<open>PWMC\_CurrentReadingCalibr\<close>

text \<open>
  The body for a handle that is not null.  \<open>PWMC_SwitchOffPWM(pHandle)\<close> is, for such a
  handle, the call of \<open>pFctSwitchOffPwm\<close>.  \<open>CRCAction_t\<close> has the two values \<open>CRC_START\<close>
  and \<open>CRC_EXEC\<close>.
\<close>

definition PWMC_CurrentReadingCalibr_body ::
  "('a PWMC_Handle_t_scheme, 'o) PWMC_Fct_t \<Rightarrow> CRCAction_t \<Rightarrow> 'a PWMC_Handle_t_scheme \<Rightarrow>
   (bool, 'a PWMC_Handle_t_scheme) outcome" where
  "PWMC_CurrentReadingCalibr_body F action h =
     (case action of
        CRC_START \<Rightarrow>
          (case call_void SwitchOffPwm (pFctSwitchOffPwm F) h of
             Inl e \<Rightarrow> Inl e
           | Inr (u, h1, cs1) \<Rightarrow>
               (let h2 = h1\<lparr>OffCalibrWaitTimeCounter := OffCalibrWaitTicks h1\<rparr> in
                if OffCalibrWaitTicks h2 = 0 then
                  (case call_void CurrReadingCalib (pFctCurrReadingCalib F) h2 of
                     Inl e \<Rightarrow> Inl e
                   | Inr (u', h3, cs3) \<Rightarrow> Inr (True, h3, cs1 @ cs3))
                else Inr (False, h2, cs1)))
      | CRC_EXEC \<Rightarrow>
          (if OffCalibrWaitTimeCounter h \<noteq> 0 then
             (let h1 = h\<lparr>OffCalibrWaitTimeCounter := OffCalibrWaitTimeCounter h - 1\<rparr> in
              if OffCalibrWaitTimeCounter h1 = 0 then
                (case call_void CurrReadingCalib (pFctCurrReadingCalib F) h1 of
                   Inl e \<Rightarrow> Inl e
                 | Inr (u', h2, cs2) \<Rightarrow> Inr (True, h2, cs2))
              else Inr (False, h1, []))
           else Inr (True, h, [])))"

definition PWMC_CurrentReadingCalibr ::
  "build_t \<Rightarrow> ('a PWMC_Handle_t_scheme, 'o) PWMC_Fct_t \<Rightarrow> ('a PWMC_Handle_t_scheme) option \<Rightarrow>
   CRCAction_t \<Rightarrow> fault + (bool \<times> ('a PWMC_Handle_t_scheme) option \<times> capability list)" where
  "PWMC_CurrentReadingCalibr B F pHandle action =
     on_handle (NULL_PTR_PWR_CUR_FDB B) False pHandle (PWMC_CurrentReadingCalibr_body F action)"

text \<open>
  A caller's sequence of calls on one handle: the returned values in order, the handle
  at the end and every operation invoked.  It stops at the first fault.
\<close>

fun calibr_calls ::
  "build_t \<Rightarrow> ('a PWMC_Handle_t_scheme, 'o) PWMC_Fct_t \<Rightarrow> ('a PWMC_Handle_t_scheme) option \<Rightarrow>
   CRCAction_t list \<Rightarrow> fault + (bool list \<times> ('a PWMC_Handle_t_scheme) option \<times> capability list)" where
  "calibr_calls B F pHandle [] = Inr ([], pHandle, [])"
| "calibr_calls B F pHandle (action # actions) =
     (case PWMC_CurrentReadingCalibr B F pHandle action of
        Inl e \<Rightarrow> Inl e
      | Inr (r, pHandle', cs) \<Rightarrow>
          (case calibr_calls B F pHandle' actions of
             Inl e \<Rightarrow> Inl e
           | Inr (rs, pHandle'', cs') \<Rightarrow> Inr (r # rs, pHandle'', cs @ cs')))"

subsection \<open>PWMC\_LowPassFilter\<close>

text \<open>
  \<^verbatim>\<open>static inline int32_t PWMC_LowPassFilter(int32_t in, int32_t *out_buf, int32_t t)\<close>
  returns \<open>x\<close> and the content of \<open>*out_buf\<close>.  Without \<open>FULL_MISRA_C_COMPLIANCY_PWM_CURR\<close>:
  \<^verbatim>\<open>*out_buf = (*out_buf) + ((in - ((*out_buf) >> 15)) * t);  x = (*out_buf) >> 15;\<close>
  and with it \<open>/ 32768\<close> in place of \<open>>> 15\<close>.
\<close>

definition PWMC_LowPassFilter ::
  "build_t \<Rightarrow> int32_t \<Rightarrow> int32_t option \<Rightarrow> int32_t \<Rightarrow> fault + (int32_t \<times> int32_t option)" where
  "PWMC_LowPassFilter B inp out_buf t =
     (case out_buf of
        None \<Rightarrow> if NULL_PTR_PWR_CUR_FDB B then Inr (0, None) else Inl NullBuffer
      | Some acc \<Rightarrow>
          if \<not> FULL_MISRA_C_COMPLIANCY_PWM_CURR B then
            (let acc' = acc + (inp - c_shr acc 15) * t in Inr (c_shr acc' 15, Some acc'))
          else
            (let acc' = acc + (inp - c_div acc 32768) * t in Inr (c_div acc' 32768, Some acc')))"

text \<open>The filter run over a sequence of inputs on one buffer: the outputs and the buffer.\<close>

fun lowpass_run ::
  "build_t \<Rightarrow> int32_t \<Rightarrow> int32_t option \<Rightarrow> int32_t list \<Rightarrow> fault + (int32_t list \<times> int32_t option)" where
  "lowpass_run B t out_buf [] = Inr ([], out_buf)"
| "lowpass_run B t out_buf (inp # inps) =
     (case PWMC_LowPassFilter B inp out_buf t of
        Inl e \<Rightarrow> Inl e
      | Inr (x, out_buf') \<Rightarrow>
          (case lowpass_run B t out_buf' inps of
             Inl e \<Rightarrow> Inl e
           | Inr (xs, out_buf'') \<Rightarrow> Inr (x # xs, out_buf'')))"

subsection \<open>A configured handle\<close>

text \<open>
  A three-shunt drive with a PWM period of 4096 timer ticks, \<open>hT_Sqrt3\<close> at its
  generated value \<open>(4096 * 0xDDB4) / 16384 = 14189\<close>, a calibration wait of 3 ticks and a
  dead-time compensation of 10 ticks, used for the concrete runs below.
\<close>

definition handle0 :: PWMC_Handle_t where
  "handle0 =
     \<lparr>hT_Sqrt3 = 14189, CntPhA = 0, CntPhB = 0, CntPhC = 0, Sector = SECTOR_1,
      lowDuty = 0, midDuty = 0, highDuty = 0, TurnOnLowSidesAction = False,
      OffCalibrWaitTimeCounter = 0, Ia = 0, Ib = 0, Ic = 0, DTTest = 0, PWMperiod = 4096,
      OffCalibrWaitTicks = 3, DTCompCnt = 10, DPWM_Mode = False, AlignFlag = 0,
      IaEst = 7, IbEst = - 3, IcEst = - 4, LPFIdBuf = 65536, LPFIqBuf = - 32768,
      LPFIqd_const = 100\<rparr>"

definition build0 :: build_t where
  "build0 = \<lparr>NULL_PTR_PWR_CUR_FDB = True, FULL_MISRA_C_COMPLIANCY_PWM_CURR = False,
             MC_NO_FAULTS = 0, MC_FOC_DURATION = 1\<rparr>"

text \<open>A handle with no operation bound, and one with every operation bound.\<close>

definition fct_unbound :: "(PWMC_Handle_t, unit) PWMC_Fct_t" where
  "fct_unbound =
     \<lparr>pFctGetPhaseCurrents = None, pFctSwitchOffPwm = None, pFctSwitchOnPwm = None,
      pFctCurrReadingCalib = None, pFctTurnOnLowSides = None, pFctSetADCSampPointSectX = None,
      pFctIsOverCurrentOccurred = None, pFctOCPSetReferenceVoltage = None,
      pFctRLDetectionModeEnable = None, pFctRLDetectionModeDisable = None,
      pFctRLDetectionModeSetDuty = None, pFctSetOffsetCalib = None, pFctGetOffsetCalib = None\<rparr>"

definition fct_bound :: "(PWMC_Handle_t, unit) PWMC_Fct_t" where
  "fct_bound =
     \<lparr>pFctGetPhaseCurrents = Some (\<lambda>h Iab. ((Ia h, Ib h), h)),
      pFctSwitchOffPwm = Some (\<lambda>h. h\<lparr>TurnOnLowSidesAction := False\<rparr>),
      pFctSwitchOnPwm = Some (\<lambda>h. h\<lparr>TurnOnLowSidesAction := False\<rparr>),
      pFctCurrReadingCalib = Some (\<lambda>h. h\<lparr>Sector := SECTOR_5\<rparr>),
      pFctTurnOnLowSides = Some (\<lambda>h. h\<lparr>TurnOnLowSidesAction := True\<rparr>),
      pFctSetADCSampPointSectX = Some (\<lambda>h. (0, h)),
      pFctIsOverCurrentOccurred = Some (\<lambda>h. (0, h)),
      pFctOCPSetReferenceVoltage = Some (\<lambda>h v. h),
      pFctRLDetectionModeEnable = Some (\<lambda>h. h),
      pFctRLDetectionModeDisable = Some (\<lambda>h. h),
      pFctRLDetectionModeSetDuty = Some (\<lambda>h v. (0, h)),
      pFctSetOffsetCalib = Some (\<lambda>h offs. (offs, h)),
      pFctGetOffsetCalib = Some (\<lambda>h offs. (offs, h))\<rparr>"

section \<open>Signed arithmetic on words\<close>

lemma sint_scast_16_32: "sint (scast (x :: 16 word) :: 32 word) = sint x"
  by (simp add: sint_up_scast is_up)

lemma sint32_signed_take_bit: "sint (word_of_int k :: 32 word) = signed_take_bit 31 k"
  by (simp add: sint_sbintrunc')

lemma sint32_of_int: "- (2 ^ 31) \<le> k \<Longrightarrow> k < 2 ^ 31 \<Longrightarrow> sint (word_of_int k :: 32 word) = k"
  by (simp add: sint32_signed_take_bit signed_take_bit_int_eq_self)

lemma sint_ucast_16_32: "sint (ucast (x :: 16 word) :: 32 word) = uint x"
proof -
  have lt: "uint x < 2 ^ 16" using uint_range_size [of x] by (simp add: word_size)
  have "signed_take_bit 31 (uint x) = uint x"
  proof (rule signed_take_bit_int_eq_self)
    show "- (2 ^ 31) \<le> uint x" by (rule order_trans [where y = 0]) simp_all
    show "uint x < 2 ^ 31" using lt by simp
  qed
  then show ?thesis by (simp add: signed_ucast_eq)
qed

lemma sint16_range: "- 32768 \<le> sint (x :: 16 word) \<and> sint x \<le> 32767"
  using sint_range_size [of x] by (simp add: word_size)

lemma uint16_range: "0 \<le> uint (x :: 16 word) \<and> uint x \<le> 65535"
  using uint_range_size [of x] by (simp add: word_size)

lemma sint32_range: "- 2147483648 \<le> sint (x :: 32 word) \<and> sint x \<le> 2147483647"
  using sint_range_size [of x] by (simp add: word_size)

lemma sdiv_pos:
  fixes x D :: int
  assumes "0 < D"
  shows "(0 \<le> x \<longrightarrow> x sdiv D = x div D) \<and> (x \<le> 0 \<longrightarrow> x sdiv D = - ((- x) div D))"
  using assms by (auto simp: signed_divide_int_def sgn_if)

lemma sdiv_trunc:
  fixes x D :: int
  assumes D: "0 < D"
  shows "(0 \<le> x \<longrightarrow> 0 \<le> x sdiv D \<and> D * (x sdiv D) \<le> x \<and> x < D * (x sdiv D) + D)
       \<and> (x \<le> 0 \<longrightarrow> x sdiv D \<le> 0 \<and> x \<le> D * (x sdiv D) \<and> D * (x sdiv D) - D < x)"
proof (intro conjI impI)
  assume x: "0 \<le> x"
  then have e: "x sdiv D = x div D" using sdiv_pos [OF D] by simp
  show "0 \<le> x sdiv D" using x D by (simp add: e pos_imp_zdiv_nonneg_iff)
  have "0 \<le> x mod D" using D by simp
  then show "D * (x sdiv D) \<le> x"
    unfolding e using mult_div_mod_eq [of D x] by linarith
  have "x mod D < D" using D by simp
  then show "x < D * (x sdiv D) + D"
    unfolding e using mult_div_mod_eq [of D x] by linarith
next
  assume x: "x \<le> 0"
  then have e: "x sdiv D = - ((- x) div D)" using sdiv_pos [OF D] by simp
  have nn: "0 \<le> (- x) div D" using x D by (simp add: pos_imp_zdiv_nonneg_iff)
  show "x sdiv D \<le> 0" using nn by (simp add: e)
  have "0 \<le> (- x) mod D" using D by simp
  then have "D * ((- x) div D) \<le> - x"
    using mult_div_mod_eq [of D "- x"] by linarith
  then show "x \<le> D * (x sdiv D)" by (simp add: e)
  have "(- x) mod D < D" using D by simp
  moreover have "D * ((- x) div D) + (- x) mod D = - x" by (rule mult_div_mod_eq)
  ultimately have "D * ((- x) div D) > - x - D" by linarith
  then show "D * (x sdiv D) - D < x" by (simp add: e)
qed

lemma sint_c_div:
  assumes "0 < sint b"
  shows "sint (c_div a b) = sint a sdiv sint b"
proof -
  have "- (2 ^ 31) \<le> sint a sdiv sint b \<and> sint a sdiv sint b < 2 ^ 31"
  proof (cases "0 \<le> sint a")
    case True
    with sdiv_trunc [OF assms, of "sint a"]
    have "0 \<le> sint a sdiv sint b" "sint b * (sint a sdiv sint b) \<le> sint a" by simp_all
    moreover have "sint a sdiv sint b \<le> sint b * (sint a sdiv sint b)"
      using assms calculation(1) by (simp add: mult_le_cancel_right1)
    ultimately show ?thesis using sint32_range [of a] by simp
  next
    case False
    with sdiv_trunc [OF assms, of "sint a"]
    have "sint a sdiv sint b \<le> 0" "sint a \<le> sint b * (sint a sdiv sint b)" by simp_all
    moreover have "sint b * (sint a sdiv sint b) \<le> sint a sdiv sint b"
      using assms calculation(1) by (simp add: mult_le_cancel_right2)
    ultimately show ?thesis using sint32_range [of a] by simp
  qed
  then show ?thesis by (simp add: c_div_def sint32_of_int)
qed

lemma sint_c_div_numeral:
  "sint (c_div a 2) = sint a sdiv 2"
  "sint (c_div a 4) = sint a sdiv 4"
  "sint (c_div a 768) = sint a sdiv 768"
  "sint (c_div a 131072) = sint a sdiv 131072"
  "sint (c_div a 262144) = sint a sdiv 262144"
  by (simp_all add: sint_c_div)

lemma sint_add32:
  "- 2147483648 \<le> sint x + sint y \<Longrightarrow> sint x + sint y \<le> 2147483647 \<Longrightarrow>
   sint (x + y :: 32 word) = sint x + sint y"
  by (simp add: sint_word_ariths signed_take_bit_int_eq_self)

lemma sint_sub32:
  "- 2147483648 \<le> sint x - sint y \<Longrightarrow> sint x - sint y \<le> 2147483647 \<Longrightarrow>
   sint (x - y :: 32 word) = sint x - sint y"
  by (simp add: sint_word_ariths signed_take_bit_int_eq_self)

lemma sint_mult32:
  "- 2147483648 \<le> sint x * sint y \<Longrightarrow> sint x * sint y \<le> 2147483647 \<Longrightarrow>
   sint (x * y :: 32 word) = sint x * sint y"
  by (simp add: sint_word_ariths signed_take_bit_int_eq_self)

lemma sint_neg32:
  "- 2147483647 \<le> sint x \<Longrightarrow> sint (- x :: 32 word) = - sint x"
  using sint32_range [of x] by (simp add: sint_word_ariths signed_take_bit_int_eq_self)

lemma mult_16_bound:
  fixes i j :: int
  assumes "- 32768 \<le> i" "i \<le> 32767" "0 \<le> j" "j \<le> 65535"
  shows "- 2147450880 \<le> i * j \<and> i * j \<le> 2147385345"
proof -
  have "i * j \<le> 32767 * 65535"
  proof (cases "0 \<le> i")
    case True then show ?thesis using assms by (intro mult_mono) simp_all
  next
    case False
    then have "i * j \<le> 0" using assms by (simp add: mult_le_0_iff)
    then show ?thesis by simp
  qed
  moreover have "(- i) * j \<le> 32768 * 65535"
  proof (cases "i \<le> 0")
    case True then show ?thesis using assms by (intro mult_mono) simp_all
  next
    case False
    then have "(- i) * j \<le> 0" using assms by (simp add: mult_le_0_iff)
    then show ?thesis by simp
  qed
  ultimately show ?thesis by simp
qed

lemma sdiv_nonneg:
  fixes x D :: int
  shows "0 < D \<Longrightarrow> 0 \<le> x \<Longrightarrow> 0 \<le> x sdiv D \<and> D * (x sdiv D) \<le> x"
  using sdiv_trunc [of D x] by simp

lemma sdiv_nonpos:
  fixes x D :: int
  shows "0 < D \<Longrightarrow> x \<le> 0 \<Longrightarrow> x sdiv D \<le> 0 \<and> x \<le> D * (x sdiv D)"
  using sdiv_trunc [of D x] by simp

lemma sdiv2_near:
  fixes x :: int
  shows "x - 1 \<le> 2 * (x sdiv 2) \<and> 2 * (x sdiv 2) \<le> x + 1"
  using sdiv_trunc [of 2 x] by (cases "0 \<le> x") auto

lemma sdiv2_abs:
  fixes x :: int
  shows "\<bar>2 * (x sdiv 2)\<bar> \<le> \<bar>x\<bar>"
proof (cases "0 \<le> x")
  case True
  then have "0 \<le> x sdiv 2 \<and> 2 * (x sdiv 2) \<le> x" by (intro sdiv_nonneg) simp_all
  with True show ?thesis by linarith
next
  case False
  then have "x sdiv 2 \<le> 0 \<and> x \<le> 2 * (x sdiv 2)" by (intro sdiv_nonpos) simp_all
  with False show ?thesis by linarith
qed


lemma uint_of_nonneg_sint:
  fixes w :: "32 word"
  assumes "0 \<le> sint w"
  shows "uint w = sint w"
proof -
  have "uint w = take_bit 32 (sint w)" by (simp add: uint_sint)
  also have "\<dots> = sint w"
    using assms sint32_range [of w] by (intro take_bit_int_eq_self) simp_all
  finally show ?thesis .
qed

lemma sint_c_shr: "sint (c_shr a n) = sint a div 2 ^ n"
  by (simp add: c_shr_def sint_signed_drop_bit_eq drop_bit_eq_div)

lemma c_shr_eval: "c_shr a n = word_of_int (sint a div 2 ^ n)"
proof -
  have "word_of_int (sint (c_shr a n)) = (word_of_int (sint a div 2 ^ n) :: 32 word)"
    by (simp only: sint_c_shr)
  then show ?thesis by simp
qed

lemma word32_as_int:
  "(x :: 32 word) + (y - z) * t = word_of_int (sint x + (sint y - sint z) * sint t)"
  by simp

lemma scast_16_32: "(scast (x :: 16 word) :: 32 word) = word_of_int (sint x)"
  by (rule scast_eq)

section \<open>Properties of the trigonometric helpers\<close>

text \<open>
  What \<open>limitTheta\<close> computes, for every angle: C's remainder \<open>theta % 360\<close>, which has the
  sign of \<open>theta\<close>.  So every negative angle that is not a whole number of turns gives a
  negative result.
\<close>

lemma smod_360_range:
  fixes k :: int
  shows "- 360 < k smod 360 \<and> k smod 360 < 360"
proof (cases "0 \<le> k")
  case True
  then have e: "k smod 360 = k mod 360 \<or> k smod 360 = 0"
    by (simp add: signed_modulo_int_def sgn_if)
  have "0 \<le> k mod 360 \<and> k mod 360 < 360" by simp
  with e show ?thesis by linarith
next
  case False
  then have e: "k smod 360 = - ((- k) mod 360)"
    by (simp add: signed_modulo_int_def sgn_if)
  have "0 \<le> (- k) mod 360 \<and> (- k) mod 360 < 360" by simp
  with e show ?thesis by linarith
qed

lemma limitTheta_word:
  "limitTheta theta = word_of_int (sint theta smod 360)"
proof -
  let ?t = "scast theta :: 32 word"
  have q: "c_div ?t 360 = word_of_int (sint theta sdiv 360)"
    by (simp add: c_div_def sint_scast_16_32)
  have "?t - 360 * word_of_int (sint theta sdiv 360) =
      word_of_int (sint theta - 360 * (sint theta sdiv 360))"
    by (simp only: scast_16_32 of_int_diff of_int_mult of_int_numeral)
  then have w: "?t - 360 * c_div ?t 360 = word_of_int (sint theta smod 360)"
    by (simp only: q minus_mult_sdiv_eq_smod)
  have same: "(360 + ?t) - 360 * (1 + c_div ?t 360) = ?t - 360 * c_div ?t 360"
    by (simp add: algebra_simps)
  have "limitTheta theta = ucast (?t - 360 * c_div ?t 360)"
    by (simp add: limitTheta_def Let_def same)
  also have "\<dots> = word_of_int (sint theta smod 360)"
    unfolding w by (rule ucast_down_wi) (simp add: is_down)
  finally show ?thesis .
qed

lemma limitTheta_smod: "sint (limitTheta theta) = sint theta smod 360"
proof -
  have "sint (limitTheta theta) = signed_take_bit 15 (sint theta smod 360)"
    by (simp add: limitTheta_word sint_sbintrunc')
  also have "\<dots> = sint theta smod 360"
  proof (rule signed_take_bit_int_eq_self)
    have "(- (2 ^ 15) :: int) \<le> - 360" "(360 :: int) \<le> 2 ^ 15" by simp_all
    with smod_360_range [of "sint theta"]
    show "- (2 ^ 15) \<le> sint theta smod 360" "sint theta smod 360 < 2 ^ 15"
      by linarith+
  qed
  finally show ?thesis .
qed

lemma limitTheta_negative:
  assumes "sint theta < 0" "\<not> 360 dvd sint theta"
  shows "sint (limitTheta theta) < 0"
proof -
  have e: "sint theta smod 360 = - ((- sint theta) mod 360)"
    using assms(1) by (simp add: signed_modulo_int_def sgn_if)
  have "\<not> 360 dvd - sint theta" using assms(2) by simp
  then have "(- sint theta) mod 360 \<noteq> 0" by (simp add: dvd_eq_mod_eq_0)
  moreover have "0 \<le> (- sint theta) mod 360" by simp
  ultimately show ?thesis unfolding limitTheta_smod e by linarith
qed

text \<open>
  Claim C1 (normalizeAngle is \<open>limitTheta\<close>): the result is in [0,360) for every integer
  angle, and whole turns do not change it.  The code misses this for negative angles:
  the turn added in \<open>360+theta\<close> is taken away again by \<open>360*(1+theta/360)\<close>, so with C's
  truncating division \<open>limitTheta(-10)\<close> is \<open>-10\<close>, not \<open>350\<close>, and differs from
  \<open>limitTheta(-10 + 360)\<close>.
\<close>

theorem limitTheta_negative_angle:
  "sint (limitTheta (- 10)) = - 10 \<and> sint (limitTheta (- 10 + 360)) = 350"
  by (simp add: limitTheta_def c_div_def signed_divide_int_def Let_def)

lemma park_sum_as_int:
  "(scast (s0 :: 16 word) * scast (a :: 16 word) + scast (s1 :: 16 word) * scast (b :: 16 word)
      + scast (s2 :: 16 word) * scast (c :: 16 word)) * 1000 =
   (word_of_int ((sint s0 * sint a + sint s1 * sint b + sint s2 * sint c) * 1000) :: 32 word)"
  by (simp only: scast_16_32 of_int_mult of_int_add of_int_numeral)

lemma sint_park_sum:
  "sint ((scast s0 * scast a + scast s1 * scast b + scast s2 * scast c) * 1000 :: 32 word) =
     signed_take_bit 31 ((sint (s0 :: 16 word) * sint (a :: 16 word) + sint (s1 :: 16 word) * sint (b :: 16 word)
        + sint (s2 :: 16 word) * sint (c :: 16 word)) * 1000)"
  by (simp only: park_sum_as_int sint32_signed_take_bit)

lemma sint_ucast_32_16:
  "sint (ucast (w :: 32 word) :: 16 word) = signed_take_bit 15 (sint w)"
  by (simp add: signed_ucast_eq signed_take_bit_eq_iff_take_bit_eq sint_uint min_def
      unsigned_ucast_eq)

text \<open>
  A quotient by 768 that fits \<open>int16_t\<close> has a dividend that fits \<open>int32_t\<close>, so the
  product with 1000 did not overflow.
\<close>

lemma park_exact:
  fixes K :: int
  assumes "- 32768 \<le> K sdiv 768" "K sdiv 768 \<le> 32767"
  shows "signed_take_bit 15 (signed_take_bit 31 K sdiv 768) = K sdiv 768"
proof -
  have K: "- 2147483648 \<le> K \<and> K \<le> 2147483647"
    using sdiv_trunc [of 768 K] assms by (cases "0 \<le> K") auto
  have "signed_take_bit 31 K = K"
  proof (rule signed_take_bit_int_eq_self)
    show "- (2 ^ 31) \<le> K" using K by simp
    show "K < 2 ^ 31" using K by simp
  qed
  moreover have "signed_take_bit 15 (K sdiv 768) = K sdiv 768"
  proof (rule signed_take_bit_int_eq_self)
    show "- (2 ^ 15) \<le> K sdiv 768" using assms by simp
    show "K sdiv 768 < 2 ^ 15" using assms by simp
  qed
  ultimately show ?thesis by simp
qed

lemma sint_parkTransform:
  "sint (d (parkTransform T a b c Xdq)) =
     signed_take_bit 15 (signed_take_bit 31
       ((sint (sin000 T) * sint a + sint (sin240 T) * sint b + sint (sin120 T) * sint c) * 1000) sdiv 768)"
  "sint (q (parkTransform T a b c Xdq)) =
     signed_take_bit 15 (signed_take_bit 31
       ((sint (cos000 T) * sint a + sint (cos240 T) * sint b + sint (cos120 T) * sint c) * 1000) sdiv 768)"
proof -
  have dd: "sint (parkTransform_d T a b c) = signed_take_bit 31
      ((sint (sin000 T) * sint a + sint (sin240 T) * sint b + sint (sin120 T) * sint c) * 1000) sdiv 768"
    unfolding parkTransform_d_def by (simp only: sint_c_div_numeral sint_park_sum)
  have qq: "sint (parkTransform_q T a b c) = signed_take_bit 31
      ((sint (cos000 T) * sint a + sint (cos240 T) * sint b + sint (cos120 T) * sint c) * 1000) sdiv 768"
    unfolding parkTransform_q_def by (simp only: sint_c_div_numeral sint_park_sum)
  have st: "d (parkTransform T a b c Xdq) = ucast (parkTransform_d T a b c)"
    "q (parkTransform T a b c Xdq) = ucast (parkTransform_q T a b c)"
    by (simp_all add: parkTransform_def Let_def)
  show "sint (d (parkTransform T a b c Xdq)) =
     signed_take_bit 15 (signed_take_bit 31
       ((sint (sin000 T) * sint a + sint (sin240 T) * sint b + sint (sin120 T) * sint c) * 1000) sdiv 768)"
    by (simp only: st sint_ucast_32_16 dd)
  show "sint (q (parkTransform T a b c Xdq)) =
     signed_take_bit 15 (signed_take_bit 31
       ((sint (cos000 T) * sint a + sint (cos240 T) * sint b + sint (cos120 T) * sint c) * 1000) sdiv 768)"
    by (simp only: st sint_ucast_32_16 qq)
qed

lemma sint_trig0:
  "sint (sin000 trig0) = 512" "sint (sin120 trig0) = - 256" "sint (sin240 trig0) = - 256"
  "sint (cos000 trig0) = 0" "sint (cos120 trig0) = - 443" "sint (cos240 trig0) = 443"
  by (simp_all add: trig0_def)

text \<open>
  Claim C9, as the claim has it, fails: the members of \<open>qd_t\<close> are \<open>int16_t\<close>, and the
  value of the formula is cut to 16 bits when it is stored.  With \<open>sin000 = 512\<close>,
  \<open>sin240 = sin120 = -256\<close> and \<open>(a, b, c) = (100, -50, -50)\<close> the formula gives
  \<open>76800 * 1000 / 768 = 100000\<close>, and \<open>d\<close> is \<open>100000 - 2 * 65536 = -31072\<close>.
\<close>

theorem parkTransform_store_truncates:
  "sint (d (parkTransform trig0 100 (- 50) (- 50) \<lparr>q = 0, d = 0\<rparr>)) = - 31072
   \<and> (sint (sin000 trig0) * sint (100 :: int16_t) + sint (sin240 trig0) * sint (- 50 :: int16_t)
        + sint (sin120 trig0) * sint (- 50 :: int16_t)) * 1000 sdiv 768 = 100000"
  by (simp add: sint_parkTransform sint_trig0 signed_divide_int_def signed_take_bit_int_eq_self
      signed_take_bit_eq_take_bit_shift)

text \<open>
  Claim C9, amended: \<open>parkTransform\<close> computes \<open>(sin000*a + sin240*b + sin120*c)*1000/768\<close>
  and \<open>(cos000*a + cos240*b + cos120*c)*1000/768\<close> in \<open>int\<close> (the sum is multiplied by 1000
  first, wrapping at 32 bits, and then divided by 768, truncating towards zero) and stores
  the low 16 bits of the results into the \<open>int16_t\<close> members \<open>d\<close> and \<open>q\<close>.  A member is
  the value of its formula in the integers whenever that value lies within
  \<open>-32768 .. 32767\<close>.
\<close>

theorem parkTransform_formula:
  "sint (d (parkTransform T a b c Xdq)) =
     signed_take_bit 15 (signed_take_bit 31
       ((sint (sin000 T) * sint a + sint (sin240 T) * sint b + sint (sin120 T) * sint c) * 1000) sdiv 768)
   \<and> sint (q (parkTransform T a b c Xdq)) =
     signed_take_bit 15 (signed_take_bit 31
       ((sint (cos000 T) * sint a + sint (cos240 T) * sint b + sint (cos120 T) * sint c) * 1000) sdiv 768)
   \<and> (- 32768 \<le> (sint (sin000 T) * sint a + sint (sin240 T) * sint b + sint (sin120 T) * sint c) * 1000 sdiv 768
       \<and> (sint (sin000 T) * sint a + sint (sin240 T) * sint b + sint (sin120 T) * sint c) * 1000 sdiv 768 \<le> 32767 \<longrightarrow>
      sint (d (parkTransform T a b c Xdq)) =
        (sint (sin000 T) * sint a + sint (sin240 T) * sint b + sint (sin120 T) * sint c) * 1000 sdiv 768)
   \<and> (- 32768 \<le> (sint (cos000 T) * sint a + sint (cos240 T) * sint b + sint (cos120 T) * sint c) * 1000 sdiv 768
       \<and> (sint (cos000 T) * sint a + sint (cos240 T) * sint b + sint (cos120 T) * sint c) * 1000 sdiv 768 \<le> 32767 \<longrightarrow>
      sint (q (parkTransform T a b c Xdq)) =
        (sint (cos000 T) * sint a + sint (cos240 T) * sint b + sint (cos120 T) * sint c) * 1000 sdiv 768)"
proof -
  let ?Sd = "(sint (sin000 T) * sint a + sint (sin240 T) * sint b + sint (sin120 T) * sint c) * 1000"
  let ?Sq = "(sint (cos000 T) * sint a + sint (cos240 T) * sint b + sint (cos120 T) * sint c) * 1000"
  note g = sint_parkTransform [of T a b c Xdq]
  have dx: "- 32768 \<le> ?Sd sdiv 768 \<and> ?Sd sdiv 768 \<le> 32767 \<longrightarrow>
      sint (d (parkTransform T a b c Xdq)) = ?Sd sdiv 768"
    using park_exact [of ?Sd] by (simp only: g) simp
  have qx: "- 32768 \<le> ?Sq sdiv 768 \<and> ?Sq sdiv 768 \<le> 32767 \<longrightarrow>
      sint (q (parkTransform T a b c Xdq)) = ?Sq sdiv 768"
    using park_exact [of ?Sq] by (simp only: g) simp
  from g dx qx show ?thesis by blast
qed

theorem parkTransform_formula_witness:
  "sint (d (parkTransform trig0 10 (- 5) (- 5) \<lparr>q = 0, d = 0\<rparr>)) = 10000
   \<and> sint (q (parkTransform trig0 100 (- 50) (- 47) \<lparr>q = 0, d = 0\<rparr>)) = - 1730
   \<and> sint (q (parkTransform trig0 100 (- 47) (- 50) \<lparr>q = 0, d = 0\<rparr>)) = 1730"
proof -
  from parkTransform_formula [of trig0 10 "- 5" "- 5" "\<lparr>q = 0, d = 0\<rparr>"]
  have 1: "sint (d (parkTransform trig0 10 (- 5) (- 5) \<lparr>q = 0, d = 0\<rparr>)) = 10000"
    by (simp add: sint_trig0 signed_divide_int_def)
  from parkTransform_formula [of trig0 100 "- 50" "- 47" "\<lparr>q = 0, d = 0\<rparr>"]
  have 2: "sint (q (parkTransform trig0 100 (- 50) (- 47) \<lparr>q = 0, d = 0\<rparr>)) = - 1730"
    by (simp add: sint_trig0 signed_divide_int_def)
  from parkTransform_formula [of trig0 100 "- 47" "- 50" "\<lparr>q = 0, d = 0\<rparr>"]
  have 3: "sint (q (parkTransform trig0 100 (- 47) (- 50) \<lparr>q = 0, d = 0\<rparr>)) = 1730"
    by (simp add: sint_trig0 signed_divide_int_def)
  from 1 2 3 show ?thesis by simp
qed

section \<open>Properties of the dispatch layer\<close>

lemma on_handle_Some:
  "on_handle chk r (Some h) body =
     (case body h of Inl e \<Rightarrow> Inl e | Inr (r, h', cs) \<Rightarrow> Inr (r, Some h', cs))"
  by (simp add: on_handle_def)

lemma on_handle_None:
  "on_handle chk r None body = (if chk then Inr (r, None, []) else Inl NullHandle)"
  by (simp add: on_handle_def)

text \<open>
  Claim C10: \<open>PWMC_Clear\<close> sets the five estimator members \<open>IaEst\<close>, \<open>IbEst\<close>, \<open>IcEst\<close>,
  \<open>LPFIdBuf\<close> and \<open>LPFIqBuf\<close> to zero and leaves every other member of the handle as it
  was: putting the five old values back gives the old handle, extension included, and no
  operation is invoked.
\<close>

theorem PWMC_Clear_frame:
  "\<exists>h'. PWMC_Clear B (Some h) = Inr ((), Some h', [])
     \<and> IaEst h' = 0 \<and> IbEst h' = 0 \<and> IcEst h' = 0 \<and> LPFIdBuf h' = 0 \<and> LPFIqBuf h' = 0
     \<and> h'\<lparr>IaEst := IaEst h, IbEst := IbEst h, IcEst := IcEst h,
           LPFIdBuf := LPFIdBuf h, LPFIqBuf := LPFIqBuf h\<rparr> = h
     \<and> hT_Sqrt3 h' = hT_Sqrt3 h \<and> CntPhA h' = CntPhA h \<and> CntPhB h' = CntPhB h
     \<and> CntPhC h' = CntPhC h \<and> Sector h' = Sector h \<and> lowDuty h' = lowDuty h
     \<and> midDuty h' = midDuty h \<and> highDuty h' = highDuty h
     \<and> TurnOnLowSidesAction h' = TurnOnLowSidesAction h
     \<and> OffCalibrWaitTimeCounter h' = OffCalibrWaitTimeCounter h
     \<and> Ia h' = Ia h \<and> Ib h' = Ib h \<and> Ic h' = Ic h \<and> DTTest h' = DTTest h
     \<and> PWMperiod h' = PWMperiod h \<and> OffCalibrWaitTicks h' = OffCalibrWaitTicks h
     \<and> DTCompCnt h' = DTCompCnt h \<and> DPWM_Mode h' = DPWM_Mode h \<and> AlignFlag h' = AlignFlag h
     \<and> LPFIqd_const h' = LPFIqd_const h \<and> PWMC_Handle_t.more h' = PWMC_Handle_t.more h"
  by (simp add: PWMC_Clear_def on_handle_Some)

text \<open>
  Claim C5, as the claim has it, fails: with every null test compiled
  (\<open>NULL_PTR_PWR_CUR_FDB\<close> defined) and a handle whose operations are not bound,
  \<open>PWMC_GetPhaseCurrents\<close>, \<open>PWMC_CheckOverCurrent\<close> and the sampling point call of
  \<open>PWMC_SetPhaseVoltage\<close> call through the null function pointer; and in a build without
  the macro a null handle is dereferenced.
\<close>

theorem dispatch_missing_operation:
  "PWMC_GetPhaseCurrents build0 fct_unbound (Some handle0) (0, 0) = Inl (NullFct GetPhaseCurrents)
   \<and> PWMC_CheckOverCurrent build0 fct_unbound (Some handle0) = Inl (NullFct IsOverCurrentOccurred)
   \<and> PWMC_SetPhaseVoltage build0 fct_unbound (Some handle0) \<lparr>alpha = 0, beta = 0\<rparr>
        = Inl (NullFct SetADCSampPointSectX)
   \<and> PWMC_GetPhaseCurrents (build0\<lparr>NULL_PTR_PWR_CUR_FDB := False\<rparr>) fct_bound None (0, 0)
        = Inl NullHandle"
  by (simp add: PWMC_GetPhaseCurrents_def PWMC_CheckOverCurrent_def PWMC_SetPhaseVoltage_def
      on_handle_Some on_handle_None call_ret_def fct_unbound_def build0_def)

text \<open>
  Claim C5, amended.  In a build with \<open>NULL_PTR_PWR_CUR_FDB\<close> defined, every dispatching
  function returns a neutral result for a null handle and invokes nothing: no effect for
  the functions returning nothing, the unchanged \<open>Iab\<close>, \<open>0\<close> from \<open>PWMC_SetPhaseVoltage\<close>,
  \<open>false\<close> from \<open>PWMC_CurrentReadingCalibr\<close>, \<open>MC_NO_FAULTS\<close> from \<open>PWMC_CheckOverCurrent\<close>
  and \<open>MC_FOC_DURATION\<close> from \<open>PWMC_RLDetectionModeSetDuty\<close>; and a missing operation is
  tested in four functions only: \<open>PWMC_OCPSetReferenceVoltage\<close>,
  \<open>PWMC_RLDetectionModeEnable\<close> and \<open>PWMC_RLDetectionModeDisable\<close> then do nothing, and
  \<open>PWMC_RLDetectionModeSetDuty\<close> returns \<open>MC_FOC_DURATION\<close>.  In every build,
  \<open>PWMC_SetOffsetCalib\<close> and \<open>PWMC_GetOffsetCalib\<close> test the handle, and every other
  function calls its operation untested, on every handle that is not null:
  \<open>PWMC_GetPhaseCurrents\<close>, \<open>PWMC_SetPhaseVoltage\<close> (the sampling point operation),
  \<open>PWMC_SwitchOffPWM\<close>, \<open>PWMC_SwitchOnPWM\<close>, \<open>PWMC_TurnOnLowSides\<close>,
  \<open>PWMC_CheckOverCurrent\<close>, \<open>PWMC_SetOffsetCalib\<close>, \<open>PWMC_GetOffsetCalib\<close>, and
  \<open>PWMC_CurrentReadingCalibr\<close> (the switch-off operation on \<open>CRC_START\<close>, the offset
  reading on the \<open>CRC_EXEC\<close> that ends the wait); with the operation missing that is a
  call through a null function pointer.
\<close>

theorem dispatch_guards:
  "(NULL_PTR_PWR_CUR_FDB B \<longrightarrow>
       PWMC_GetPhaseCurrents B F None Iab = Inr (Iab, None, [])
     \<and> PWMC_SetPhaseVoltage B F None V = Inr (0, None, [])
     \<and> PWMC_SwitchOffPWM B F None = Inr ((), None, [])
     \<and> PWMC_SwitchOnPWM B F None = Inr ((), None, [])
     \<and> PWMC_CurrentReadingCalibr B F None action = Inr (False, None, [])
     \<and> PWMC_TurnOnLowSides B F None = Inr ((), None, [])
     \<and> PWMC_CheckOverCurrent B F None = Inr (MC_NO_FAULTS B, None, [])
     \<and> PWMC_OCPSetReferenceVoltage B F None v = Inr ((), None, [])
     \<and> PWMC_RLDetectionModeEnable B F None = Inr ((), None, [])
     \<and> PWMC_RLDetectionModeDisable B F None = Inr ((), None, [])
     \<and> PWMC_RLDetectionModeSetDuty B F None v = Inr (MC_FOC_DURATION B, None, [])
     \<and> (pFctOCPSetReferenceVoltage F = None \<longrightarrow>
          PWMC_OCPSetReferenceVoltage B F (Some h) v = Inr ((), Some h, []))
     \<and> (pFctRLDetectionModeEnable F = None \<longrightarrow>
          PWMC_RLDetectionModeEnable B F (Some h) = Inr ((), Some h, []))
     \<and> (pFctRLDetectionModeDisable F = None \<longrightarrow>
          PWMC_RLDetectionModeDisable B F (Some h) = Inr ((), Some h, []))
     \<and> (pFctRLDetectionModeSetDuty F = None \<longrightarrow>
          PWMC_RLDetectionModeSetDuty B F (Some h) v = Inr (MC_FOC_DURATION B, Some h, [])))
   \<and> PWMC_SetOffsetCalib F None offs = Inr (offs, None, [])
   \<and> PWMC_GetOffsetCalib F None offs = Inr (offs, None, [])
   \<and> (pFctGetPhaseCurrents F = None \<longrightarrow>
        PWMC_GetPhaseCurrents B F (Some h) Iab = Inl (NullFct GetPhaseCurrents))
   \<and> (pFctSetADCSampPointSectX F = None \<longrightarrow>
        PWMC_SetPhaseVoltage B F (Some h) V = Inl (NullFct SetADCSampPointSectX))
   \<and> (pFctSwitchOffPwm F = None \<longrightarrow>
        PWMC_SwitchOffPWM B F (Some h) = Inl (NullFct SwitchOffPwm))
   \<and> (pFctSwitchOnPwm F = None \<longrightarrow>
        PWMC_SwitchOnPWM B F (Some h) = Inl (NullFct SwitchOnPwm))
   \<and> (pFctTurnOnLowSides F = None \<longrightarrow>
        PWMC_TurnOnLowSides B F (Some h) = Inl (NullFct TurnOnLowSides))
   \<and> (pFctIsOverCurrentOccurred F = None \<longrightarrow>
        PWMC_CheckOverCurrent B F (Some h) = Inl (NullFct IsOverCurrentOccurred))
   \<and> (pFctSetOffsetCalib F = None \<longrightarrow>
        PWMC_SetOffsetCalib F (Some h) offs = Inl (NullFct SetOffsetCalib))
   \<and> (pFctGetOffsetCalib F = None \<longrightarrow>
        PWMC_GetOffsetCalib F (Some h) offs = Inl (NullFct GetOffsetCalib))
   \<and> (pFctSwitchOffPwm F = None \<longrightarrow>
        PWMC_CurrentReadingCalibr B F (Some h) CRC_START = Inl (NullFct SwitchOffPwm))
   \<and> (pFctCurrReadingCalib F = None \<and> OffCalibrWaitTimeCounter h = 1 \<longrightarrow>
        PWMC_CurrentReadingCalibr B F (Some h) CRC_EXEC = Inl (NullFct CurrReadingCalib))"
proof -
  have null: "PWMC_GetPhaseCurrents B F None Iab = Inr (Iab, None, [])
     \<and> PWMC_SetPhaseVoltage B F None V = Inr (0, None, [])
     \<and> PWMC_SwitchOffPWM B F None = Inr ((), None, [])
     \<and> PWMC_SwitchOnPWM B F None = Inr ((), None, [])
     \<and> PWMC_CurrentReadingCalibr B F None action = Inr (False, None, [])
     \<and> PWMC_TurnOnLowSides B F None = Inr ((), None, [])
     \<and> PWMC_CheckOverCurrent B F None = Inr (MC_NO_FAULTS B, None, [])
     \<and> PWMC_OCPSetReferenceVoltage B F None v = Inr ((), None, [])
     \<and> PWMC_RLDetectionModeEnable B F None = Inr ((), None, [])
     \<and> PWMC_RLDetectionModeDisable B F None = Inr ((), None, [])
     \<and> PWMC_RLDetectionModeSetDuty B F None v = Inr (MC_FOC_DURATION B, None, [])"
    if "NULL_PTR_PWR_CUR_FDB B"
    using that
    by (simp add: PWMC_GetPhaseCurrents_def PWMC_SetPhaseVoltage_def PWMC_SwitchOffPWM_def
        PWMC_SwitchOnPWM_def PWMC_CurrentReadingCalibr_def PWMC_TurnOnLowSides_def
        PWMC_CheckOverCurrent_def PWMC_OCPSetReferenceVoltage_def PWMC_RLDetectionModeEnable_def
        PWMC_RLDetectionModeDisable_def PWMC_RLDetectionModeSetDuty_def on_handle_None)
  have tested: "(pFctOCPSetReferenceVoltage F = None \<longrightarrow>
        PWMC_OCPSetReferenceVoltage B F (Some h) v = Inr ((), Some h, []))
     \<and> (pFctRLDetectionModeEnable F = None \<longrightarrow>
        PWMC_RLDetectionModeEnable B F (Some h) = Inr ((), Some h, []))
     \<and> (pFctRLDetectionModeDisable F = None \<longrightarrow>
        PWMC_RLDetectionModeDisable B F (Some h) = Inr ((), Some h, []))
     \<and> (pFctRLDetectionModeSetDuty F = None \<longrightarrow>
        PWMC_RLDetectionModeSetDuty B F (Some h) v = Inr (MC_FOC_DURATION B, Some h, []))"
    if "NULL_PTR_PWR_CUR_FDB B"
    using that
    by (simp add: PWMC_OCPSetReferenceVoltage_def PWMC_RLDetectionModeEnable_def
        PWMC_RLDetectionModeDisable_def PWMC_RLDetectionModeSetDuty_def on_handle_Some)
  have offs: "PWMC_SetOffsetCalib F None offs = Inr (offs, None, [])
     \<and> PWMC_GetOffsetCalib F None offs = Inr (offs, None, [])"
    by (simp add: PWMC_SetOffsetCalib_def PWMC_GetOffsetCalib_def on_handle_None)
  have untested: "(pFctGetPhaseCurrents F = None \<longrightarrow>
        PWMC_GetPhaseCurrents B F (Some h) Iab = Inl (NullFct GetPhaseCurrents))
     \<and> (pFctSetADCSampPointSectX F = None \<longrightarrow>
        PWMC_SetPhaseVoltage B F (Some h) V = Inl (NullFct SetADCSampPointSectX))
     \<and> (pFctSwitchOffPwm F = None \<longrightarrow>
        PWMC_SwitchOffPWM B F (Some h) = Inl (NullFct SwitchOffPwm))
     \<and> (pFctSwitchOnPwm F = None \<longrightarrow>
        PWMC_SwitchOnPWM B F (Some h) = Inl (NullFct SwitchOnPwm))
     \<and> (pFctTurnOnLowSides F = None \<longrightarrow>
        PWMC_TurnOnLowSides B F (Some h) = Inl (NullFct TurnOnLowSides))
     \<and> (pFctIsOverCurrentOccurred F = None \<longrightarrow>
        PWMC_CheckOverCurrent B F (Some h) = Inl (NullFct IsOverCurrentOccurred))
     \<and> (pFctSetOffsetCalib F = None \<longrightarrow>
        PWMC_SetOffsetCalib F (Some h) offs = Inl (NullFct SetOffsetCalib))
     \<and> (pFctGetOffsetCalib F = None \<longrightarrow>
        PWMC_GetOffsetCalib F (Some h) offs = Inl (NullFct GetOffsetCalib))"
    by (simp add: PWMC_GetPhaseCurrents_def PWMC_SetPhaseVoltage_def PWMC_SwitchOffPWM_def
        PWMC_SwitchOnPWM_def PWMC_TurnOnLowSides_def PWMC_CheckOverCurrent_def
        PWMC_SetOffsetCalib_def PWMC_GetOffsetCalib_def on_handle_Some call_ret_def
        call_void_def)
  have calibr: "(pFctSwitchOffPwm F = None \<longrightarrow>
        PWMC_CurrentReadingCalibr B F (Some h) CRC_START = Inl (NullFct SwitchOffPwm))
     \<and> (pFctCurrReadingCalib F = None \<and> OffCalibrWaitTimeCounter h = 1 \<longrightarrow>
        PWMC_CurrentReadingCalibr B F (Some h) CRC_EXEC = Inl (NullFct CurrReadingCalib))"
    by (simp add: PWMC_CurrentReadingCalibr_def PWMC_CurrentReadingCalibr_body_def
        on_handle_Some call_void_def Let_def)
  from null tested offs untested calibr show ?thesis by blast
qed

theorem dispatch_guards_witness:
  "PWMC_CheckOverCurrent build0 fct_unbound None = Inr (0, None, [])
   \<and> PWMC_SetPhaseVoltage build0 fct_unbound None \<lparr>alpha = 5, beta = 7\<rparr> = Inr (0, None, [])
   \<and> PWMC_OCPSetReferenceVoltage build0 fct_unbound (Some handle0) 100 = Inr ((), Some handle0, [])
   \<and> PWMC_RLDetectionModeEnable build0 fct_unbound (Some handle0) = Inr ((), Some handle0, [])
   \<and> PWMC_RLDetectionModeDisable build0 fct_unbound (Some handle0) = Inr ((), Some handle0, [])
   \<and> PWMC_RLDetectionModeSetDuty build0 fct_unbound (Some handle0) 100 = Inr (1, Some handle0, [])
   \<and> PWMC_SwitchOffPWM build0 fct_unbound (Some handle0) = Inl (NullFct SwitchOffPwm)
   \<and> PWMC_SwitchOnPWM build0 fct_unbound (Some handle0) = Inl (NullFct SwitchOnPwm)
   \<and> PWMC_TurnOnLowSides build0 fct_unbound (Some handle0) = Inl (NullFct TurnOnLowSides)
   \<and> PWMC_SetOffsetCalib fct_unbound (Some handle0) () = Inl (NullFct SetOffsetCalib)
   \<and> PWMC_GetOffsetCalib fct_unbound (Some handle0) () = Inl (NullFct GetOffsetCalib)
   \<and> PWMC_CurrentReadingCalibr build0 fct_unbound (Some handle0) CRC_START
        = Inl (NullFct SwitchOffPwm)
   \<and> PWMC_CurrentReadingCalibr build0 fct_unbound
        (Some (handle0\<lparr>OffCalibrWaitTimeCounter := 1\<rparr>)) CRC_EXEC = Inl (NullFct CurrReadingCalib)"
proof -
  have b: "NULL_PTR_PWR_CUR_FDB build0"
    and m: "MC_FOC_DURATION build0 = 1" "MC_NO_FAULTS build0 = 0"
    by (simp_all add: build0_def)
  have f: "pFctOCPSetReferenceVoltage fct_unbound = None"
    "pFctRLDetectionModeEnable fct_unbound = None"
    "pFctRLDetectionModeDisable fct_unbound = None"
    "pFctRLDetectionModeSetDuty fct_unbound = None"
    "pFctGetPhaseCurrents fct_unbound = None"
    "pFctSetADCSampPointSectX fct_unbound = None"
    "pFctSwitchOffPwm fct_unbound = None"
    "pFctSwitchOnPwm fct_unbound = None"
    "pFctTurnOnLowSides fct_unbound = None"
    "pFctIsOverCurrentOccurred fct_unbound = None"
    "pFctSetOffsetCalib fct_unbound = None"
    "pFctGetOffsetCalib fct_unbound = None"
    "pFctCurrReadingCalib fct_unbound = None"
    by (simp_all add: fct_unbound_def)
  have c: "OffCalibrWaitTimeCounter (handle0\<lparr>OffCalibrWaitTimeCounter := 1\<rparr>) = 1"
    by simp
  from dispatch_guards [where B = build0 and F = fct_unbound and h = handle0 and v = 100
      and V = "\<lparr>alpha = 5, beta = 7\<rparr>" and Iab = "(0, 0)" and action = CRC_START
      and offs = "()"]
  have 1: "PWMC_CheckOverCurrent build0 fct_unbound None = Inr (0, None, [])
   \<and> PWMC_SetPhaseVoltage build0 fct_unbound None \<lparr>alpha = 5, beta = 7\<rparr> = Inr (0, None, [])
   \<and> PWMC_OCPSetReferenceVoltage build0 fct_unbound (Some handle0) 100 = Inr ((), Some handle0, [])
   \<and> PWMC_RLDetectionModeEnable build0 fct_unbound (Some handle0) = Inr ((), Some handle0, [])
   \<and> PWMC_RLDetectionModeDisable build0 fct_unbound (Some handle0) = Inr ((), Some handle0, [])
   \<and> PWMC_RLDetectionModeSetDuty build0 fct_unbound (Some handle0) 100 = Inr (1, Some handle0, [])
   \<and> PWMC_SwitchOffPWM build0 fct_unbound (Some handle0) = Inl (NullFct SwitchOffPwm)
   \<and> PWMC_SwitchOnPWM build0 fct_unbound (Some handle0) = Inl (NullFct SwitchOnPwm)
   \<and> PWMC_TurnOnLowSides build0 fct_unbound (Some handle0) = Inl (NullFct TurnOnLowSides)
   \<and> PWMC_SetOffsetCalib fct_unbound (Some handle0) () = Inl (NullFct SetOffsetCalib)
   \<and> PWMC_GetOffsetCalib fct_unbound (Some handle0) () = Inl (NullFct GetOffsetCalib)
   \<and> PWMC_CurrentReadingCalibr build0 fct_unbound (Some handle0) CRC_START
        = Inl (NullFct SwitchOffPwm)"
    using b f m by simp
  from dispatch_guards [where B = build0 and F = fct_unbound
      and h = "handle0\<lparr>OffCalibrWaitTimeCounter := 1\<rparr>" and v = 100
      and V = "\<lparr>alpha = 5, beta = 7\<rparr>" and Iab = "(0, 0)" and action = CRC_START
      and offs = "()"]
  have 2: "PWMC_CurrentReadingCalibr build0 fct_unbound
        (Some (handle0\<lparr>OffCalibrWaitTimeCounter := 1\<rparr>)) CRC_EXEC = Inl (NullFct CurrReadingCalib)"
    using f c by simp
  from 1 2 show ?thesis by simp
qed

section \<open>Properties of the calibration sequence\<close>

lemma calibr_exec_last:
  "pFctCurrReadingCalib F = Some cal \<Longrightarrow> OffCalibrWaitTimeCounter h = 1 \<Longrightarrow>
   PWMC_CurrentReadingCalibr B F (Some h) CRC_EXEC =
     Inr (True, Some (cal (h\<lparr>OffCalibrWaitTimeCounter := 0\<rparr>)), [CurrReadingCalib])"
  by (simp add: PWMC_CurrentReadingCalibr_def PWMC_CurrentReadingCalibr_body_def on_handle_Some
      call_void_def Let_def)

lemma calibr_exec_wait:
  "OffCalibrWaitTimeCounter h \<noteq> 0 \<Longrightarrow> OffCalibrWaitTimeCounter h \<noteq> 1 \<Longrightarrow>
   PWMC_CurrentReadingCalibr B F (Some h) CRC_EXEC =
     Inr (False, Some (h\<lparr>OffCalibrWaitTimeCounter := OffCalibrWaitTimeCounter h - 1\<rparr>), [])"
  by (simp add: PWMC_CurrentReadingCalibr_def PWMC_CurrentReadingCalibr_body_def on_handle_Some
      Let_def)

lemma calibr_exec_done:
  "OffCalibrWaitTimeCounter h = 0 \<Longrightarrow>
   PWMC_CurrentReadingCalibr B F (Some h) CRC_EXEC = Inr (True, Some h, [])"
  by (simp add: PWMC_CurrentReadingCalibr_def PWMC_CurrentReadingCalibr_body_def on_handle_Some)

lemma calibr_start:
  "pFctSwitchOffPwm F = Some off \<Longrightarrow> pFctCurrReadingCalib F = Some cal \<Longrightarrow>
   PWMC_CurrentReadingCalibr B F (Some h) CRC_START =
     (if OffCalibrWaitTicks (off h) = 0
      then Inr (True, Some (cal ((off h)\<lparr>OffCalibrWaitTimeCounter := 0\<rparr>)),
                [SwitchOffPwm, CurrReadingCalib])
      else Inr (False, Some ((off h)\<lparr>OffCalibrWaitTimeCounter := OffCalibrWaitTicks (off h)\<rparr>),
                [SwitchOffPwm]))"
  by (simp add: PWMC_CurrentReadingCalibr_def PWMC_CurrentReadingCalibr_body_def on_handle_Some
      call_void_def Let_def)

lemma unat_pred: "(c :: 16 word) \<noteq> 0 \<Longrightarrow> unat (c - 1) = unat c - 1"
  by (simp add: unat_minus_one)

text \<open>
  From a counter of \<open>n + 1\<close>, \<open>n + 1\<close> calls with \<open>CRC_EXEC\<close>: \<open>n\<close> times not complete, then
  complete, the offset reading invoked once, by the last call.
\<close>

lemma calibr_exec_run:
  "pFctCurrReadingCalib F = Some cal \<Longrightarrow> unat (OffCalibrWaitTimeCounter h) = Suc n \<Longrightarrow>
   calibr_calls B F (Some h) (replicate (Suc n) CRC_EXEC) =
     Inr (replicate n False @ [True], Some (cal (h\<lparr>OffCalibrWaitTimeCounter := 0\<rparr>)),
          [CurrReadingCalib])"
proof (induction n arbitrary: h)
  case 0
  then have "OffCalibrWaitTimeCounter h = 1"
    by (metis One_nat_def unat_1 word_unat_eq_iff)
  with 0 show ?case by (simp add: calibr_exec_last)
next
  case (Suc n)
  let ?h1 = "h\<lparr>OffCalibrWaitTimeCounter := OffCalibrWaitTimeCounter h - 1\<rparr>"
  from Suc.prems have ne0: "OffCalibrWaitTimeCounter h \<noteq> 0" by auto
  from Suc.prems have ne1: "OffCalibrWaitTimeCounter h \<noteq> 1" by auto
  have "unat (OffCalibrWaitTimeCounter ?h1) = Suc n"
    using Suc.prems ne0 by (simp add: unat_pred)
  from Suc.IH [OF Suc.prems(1) this]
  have run: "calibr_calls B F (Some ?h1) (replicate (Suc n) CRC_EXEC) =
     Inr (replicate n False @ [True], Some (cal (h\<lparr>OffCalibrWaitTimeCounter := 0\<rparr>)),
          [CurrReadingCalib])"
    by simp
  have "calibr_calls B F (Some h) (CRC_EXEC # replicate (Suc n) CRC_EXEC) =
      Inr (False # (replicate n False @ [True]),
           Some (cal (h\<lparr>OffCalibrWaitTimeCounter := 0\<rparr>)), [] @ [CurrReadingCalib])"
    by (subst calibr_calls.simps(2))
      (simp only: calibr_exec_wait [OF ne0 ne1] run sum.case prod.case)
  then show ?case by (simp only: replicate_Suc append_Nil append_Cons)
qed

text \<open>
  Claim C4.  \<open>off\<close> and \<open>cal\<close> are the bound switch-off and offset reading operations, and
  the configured wait is \<open>OffCalibrWaitTicks\<close> as \<open>CRC_START\<close> reads it, after the PWM was
  switched off.  With a wait of 0, \<open>CRC_START\<close> switches the PWM off, reads the offsets
  once and returns true.  With a wait of \<open>N > 0\<close>, \<open>CRC_START\<close> and \<open>N\<close> calls with \<open>CRC_EXEC\<close>
  return false \<open>N\<close> times (the start and the first \<open>N - 1\<close> executions) and then true, and
  invoke the switch-off and one offset reading, nothing else.  \<open>CRC_EXEC\<close> on a counter
  that is already zero returns true, invokes nothing and leaves the handle as it is.
\<close>

theorem PWMC_CurrentReadingCalibr_sequence:
  assumes off: "pFctSwitchOffPwm F = Some off"
    and cal: "pFctCurrReadingCalib F = Some cal"
  shows "(OffCalibrWaitTicks (off h) = 0 \<longrightarrow>
            PWMC_CurrentReadingCalibr B F (Some h) CRC_START =
              Inr (True, Some (cal ((off h)\<lparr>OffCalibrWaitTimeCounter := 0\<rparr>)),
                   [SwitchOffPwm, CurrReadingCalib]))
       \<and> (OffCalibrWaitTicks (off h) \<noteq> 0 \<longrightarrow>
            calibr_calls B F (Some h)
              (CRC_START # replicate (unat (OffCalibrWaitTicks (off h))) CRC_EXEC) =
              Inr (False # replicate (unat (OffCalibrWaitTicks (off h)) - 1) False @ [True],
                   Some (cal ((off h)\<lparr>OffCalibrWaitTimeCounter := 0\<rparr>)),
                   [SwitchOffPwm, CurrReadingCalib]))
       \<and> (OffCalibrWaitTimeCounter h = 0 \<longrightarrow>
            PWMC_CurrentReadingCalibr B F (Some h) CRC_EXEC = Inr (True, Some h, []))"
proof (intro conjI impI)
  assume "OffCalibrWaitTicks (off h) = 0"
  then show "PWMC_CurrentReadingCalibr B F (Some h) CRC_START =
      Inr (True, Some (cal ((off h)\<lparr>OffCalibrWaitTimeCounter := 0\<rparr>)),
           [SwitchOffPwm, CurrReadingCalib])"
    by (simp add: calibr_start [OF off cal])
next
  assume ne: "OffCalibrWaitTicks (off h) \<noteq> 0"
  let ?N = "OffCalibrWaitTicks (off h)"
  let ?h1 = "(off h)\<lparr>OffCalibrWaitTimeCounter := ?N\<rparr>"
  from ne obtain n where n: "unat ?N = Suc n"
    by (metis not0_implies_Suc unat_eq_zero)
  have start: "PWMC_CurrentReadingCalibr B F (Some h) CRC_START =
      Inr (False, Some ?h1, [SwitchOffPwm])"
    using ne by (simp add: calibr_start [OF off cal])
  have "unat (OffCalibrWaitTimeCounter ?h1) = Suc n" using n by simp
  from calibr_exec_run [OF cal this, of B]
  have "calibr_calls B F (Some ?h1) (replicate (Suc n) CRC_EXEC) =
     Inr (replicate n False @ [True], Some (cal ((off h)\<lparr>OffCalibrWaitTimeCounter := 0\<rparr>)),
          [CurrReadingCalib])"
    by simp
  then have "calibr_calls B F (Some h) (CRC_START # replicate (Suc n) CRC_EXEC) =
      Inr (False # (replicate n False @ [True]),
           Some (cal ((off h)\<lparr>OffCalibrWaitTimeCounter := 0\<rparr>)),
           [SwitchOffPwm] @ [CurrReadingCalib])"
    by (subst calibr_calls.simps(2)) (simp only: start sum.case prod.case)
  then show "calibr_calls B F (Some h) (CRC_START # replicate (unat ?N) CRC_EXEC) =
      Inr (False # replicate (unat ?N - 1) False @ [True],
           Some (cal ((off h)\<lparr>OffCalibrWaitTimeCounter := 0\<rparr>)),
           [SwitchOffPwm, CurrReadingCalib])"
    unfolding n by simp
next
  assume "OffCalibrWaitTimeCounter h = 0"
  then show "PWMC_CurrentReadingCalibr B F (Some h) CRC_EXEC = Inr (True, Some h, [])"
    by (rule calibr_exec_done)
qed

theorem PWMC_CurrentReadingCalibr_sequence_witness:
  "PWMC_CurrentReadingCalibr build0 fct_bound (Some (handle0\<lparr>OffCalibrWaitTicks := 0\<rparr>)) CRC_START =
     Inr (True, Some (handle0\<lparr>OffCalibrWaitTicks := 0, Sector := SECTOR_5\<rparr>),
          [SwitchOffPwm, CurrReadingCalib])
   \<and> calibr_calls build0 fct_bound (Some handle0) [CRC_START, CRC_EXEC, CRC_EXEC, CRC_EXEC] =
     Inr ([False, False, False, True], Some (handle0\<lparr>Sector := SECTOR_5\<rparr>),
          [SwitchOffPwm, CurrReadingCalib])
   \<and> PWMC_CurrentReadingCalibr build0 fct_bound (Some handle0) CRC_EXEC =
     Inr (True, Some handle0, [])"
proof -
  have off: "pFctSwitchOffPwm fct_bound = Some (\<lambda>h. h\<lparr>TurnOnLowSidesAction := False\<rparr>)"
    and cal: "pFctCurrReadingCalib fct_bound = Some (\<lambda>h. h\<lparr>Sector := SECTOR_5\<rparr>)"
    by (simp_all add: fct_bound_def)
  have r: "replicate 3 CRC_EXEC = [CRC_EXEC, CRC_EXEC, CRC_EXEC]"
    "replicate 2 False = [False, False]"
    by (simp_all add: numeral_eq_Suc)
  from PWMC_CurrentReadingCalibr_sequence [OF off cal, of "handle0\<lparr>OffCalibrWaitTicks := 0\<rparr>" build0]
  have 1: "PWMC_CurrentReadingCalibr build0 fct_bound (Some (handle0\<lparr>OffCalibrWaitTicks := 0\<rparr>)) CRC_START =
     Inr (True, Some (handle0\<lparr>OffCalibrWaitTicks := 0, Sector := SECTOR_5\<rparr>),
          [SwitchOffPwm, CurrReadingCalib])"
    by (simp add: handle0_def)
  from PWMC_CurrentReadingCalibr_sequence [OF off cal, of handle0 build0]
  have 2: "calibr_calls build0 fct_bound (Some handle0) [CRC_START, CRC_EXEC, CRC_EXEC, CRC_EXEC] =
     Inr ([False, False, False, True], Some (handle0\<lparr>Sector := SECTOR_5\<rparr>),
          [SwitchOffPwm, CurrReadingCalib])"
    and 3: "PWMC_CurrentReadingCalibr build0 fct_bound (Some handle0) CRC_EXEC =
     Inr (True, Some handle0, [])"
    by (simp_all add: handle0_def r)
  from 1 2 3 show ?thesis by simp
qed

section \<open>Properties of the space vector modulation\<close>

lemma sint_wUAlpha: "sint (wUAlpha h V) = sint (alpha V) * uint (hT_Sqrt3 h)"
proof -
  have "- 2147450880 \<le> sint (alpha V) * uint (hT_Sqrt3 h) \<and> sint (alpha V) * uint (hT_Sqrt3 h) \<le> 2147385345"
    using sint16_range [of "alpha V"] uint16_range [of "hT_Sqrt3 h"] by (intro mult_16_bound) simp_all
  then show ?thesis
    by (simp add: wUAlpha_def sint_mult32 sint_scast_16_32 sint_ucast_16_32)
qed

lemma sint_wUBeta:
  assumes "\<bar>sint (beta V) * uint (PWMperiod h)\<bar> \<le> 1073741823"
  shows "sint (wUBeta h V) = - (sint (beta V) * uint (PWMperiod h)) * 2"
proof -
  let ?p = "scast (beta V) * ucast (PWMperiod h) :: 32 word"
  have "- 2147450880 \<le> sint (beta V) * uint (PWMperiod h) \<and> sint (beta V) * uint (PWMperiod h) \<le> 2147385345"
    using sint16_range [of "beta V"] uint16_range [of "PWMperiod h"] by (intro mult_16_bound) simp_all
  then have p: "sint ?p = sint (beta V) * uint (PWMperiod h)"
    by (simp add: sint_mult32 sint_scast_16_32 sint_ucast_16_32)
  have n: "sint (- ?p) = - (sint (beta V) * uint (PWMperiod h))"
    using assms by (simp add: sint_neg32 p)
  have "sint (- ?p * 2) = sint (- ?p) * sint (2 :: 32 word)"
    using assms by (intro sint_mult32) (simp_all add: n)
  then show ?thesis by (simp add: wUBeta_def n)
qed


text \<open>
  Claim C3, as the claim has it, fails: the code takes \<open>wX = wUBeta\<close>, not twice \<open>wUBeta\<close>.
  For a period of 4096 and \<open>beta = 1\<close>, \<open>wX\<close> is \<open>-8192\<close> and twice \<open>wUBeta\<close> is \<open>-16384\<close>.
\<close>

theorem wX_not_twice_wUBeta:
  "sint (wX handle0 \<lparr>alpha = 0, beta = 1\<rparr>) = - 8192
   \<and> sint (wUBeta handle0 \<lparr>alpha = 0, beta = 1\<rparr> * 2) = - 16384
   \<and> wX handle0 \<lparr>alpha = 0, beta = 1\<rparr> \<noteq> wUBeta handle0 \<lparr>alpha = 0, beta = 1\<rparr> * 2"
  by (simp add: wX_def wUBeta_def handle0_def)

text \<open>
  Claim C3, amended: for every input vector, in \<open>int32_t\<close> arithmetic,
  \<open>Ualpha = Valpha * hT_Sqrt3\<close>, \<open>Ubeta = -(Vbeta * period) * 2\<close>, \<open>X = Ubeta\<close>,
  \<open>Y = (Ubeta + Ualpha) / 2\<close> and \<open>Z = (Ubeta - Ualpha) / 2\<close>, the divisions truncating
  towards zero.  \<open>Ualpha\<close> never overflows; the others are the values in the integers as
  long as \<open>2 * |Vbeta * period| + |Valpha * hT_Sqrt3|\<close> stays within \<open>int32_t\<close>.
\<close>

theorem svpwm_projections:
  "wUAlpha h V = scast (alpha V) * ucast (hT_Sqrt3 h)
   \<and> wUBeta h V = - (scast (beta V) * ucast (PWMperiod h)) * 2
   \<and> wX h V = wUBeta h V
   \<and> wY h V = c_div (wUBeta h V + wUAlpha h V) 2
   \<and> wZ h V = c_div (wUBeta h V - wUAlpha h V) 2
   \<and> sint (wUAlpha h V) = sint (alpha V) * uint (hT_Sqrt3 h)
   \<and> (2 * \<bar>sint (beta V) * uint (PWMperiod h)\<bar> + \<bar>sint (alpha V) * uint (hT_Sqrt3 h)\<bar>
          \<le> 2147483647 \<longrightarrow>
        sint (wUBeta h V) = - (sint (beta V) * uint (PWMperiod h)) * 2
        \<and> sint (wY h V) = (sint (wUBeta h V) + sint (wUAlpha h V)) sdiv 2
        \<and> sint (wZ h V) = (sint (wUBeta h V) - sint (wUAlpha h V)) sdiv 2)"
proof -
  have w: "wUAlpha h V = scast (alpha V) * ucast (hT_Sqrt3 h)"
    "wUBeta h V = - (scast (beta V) * ucast (PWMperiod h)) * 2"
    "wX h V = wUBeta h V"
    "wY h V = c_div (wUBeta h V + wUAlpha h V) 2"
    "wZ h V = c_div (wUBeta h V - wUAlpha h V) 2"
    by (simp_all add: wUAlpha_def wUBeta_def wX_def wY_def wZ_def)
  have i: "sint (wUBeta h V) = - (sint (beta V) * uint (PWMperiod h)) * 2
        \<and> sint (wY h V) = (sint (wUBeta h V) + sint (wUAlpha h V)) sdiv 2
        \<and> sint (wZ h V) = (sint (wUBeta h V) - sint (wUAlpha h V)) sdiv 2"
    if ov: "2 * \<bar>sint (beta V) * uint (PWMperiod h)\<bar> + \<bar>sint (alpha V) * uint (hT_Sqrt3 h)\<bar>
          \<le> 2147483647"
  proof -
    have b: "sint (wUBeta h V) = - (sint (beta V) * uint (PWMperiod h)) * 2"
      using ov by (intro sint_wUBeta) simp
    have s: "sint (wUBeta h V + wUAlpha h V) = sint (wUBeta h V) + sint (wUAlpha h V)"
      using ov by (intro sint_add32) (simp_all add: b sint_wUAlpha)
    have d: "sint (wUBeta h V - wUAlpha h V) = sint (wUBeta h V) - sint (wUAlpha h V)"
      using ov by (intro sint_sub32) (simp_all add: b sint_wUAlpha)
    show ?thesis
      by (simp add: b wY_def wZ_def sint_c_div_numeral s d)
  qed
  from w i sint_wUAlpha [of h V] show ?thesis by blast
qed

theorem svpwm_projections_witness:
  "sint (wUAlpha handle0 \<lparr>alpha = 1000, beta = - 100\<rparr>) = 14189000
   \<and> sint (wUBeta handle0 \<lparr>alpha = 1000, beta = - 100\<rparr>) = 819200
   \<and> sint (wX handle0 \<lparr>alpha = 1000, beta = - 100\<rparr>) = 819200
   \<and> sint (wY handle0 \<lparr>alpha = 1000, beta = - 100\<rparr>) = 7504100
   \<and> sint (wZ handle0 \<lparr>alpha = 1000, beta = - 100\<rparr>) = - 6684900"
proof -
  let ?V = "\<lparr>alpha = 1000, beta = - 100\<rparr>"
  have h: "sint (alpha ?V) = 1000" "sint (beta ?V) = - 100"
    "uint (PWMperiod handle0) = 4096" "uint (hT_Sqrt3 handle0) = 14189"
    by (simp_all add: handle0_def)
  note t = svpwm_projections [of handle0 ?V]
  from t have x: "wX handle0 ?V = wUBeta handle0 ?V"
    by blast
  from t have "sint (wUAlpha handle0 ?V) = sint (alpha ?V) * uint (hT_Sqrt3 handle0)"
    by blast
  then have a: "sint (wUAlpha handle0 ?V) = 14189000"
    unfolding h by simp
  from t have "2 * \<bar>sint (beta ?V) * uint (PWMperiod handle0)\<bar>
      + \<bar>sint (alpha ?V) * uint (hT_Sqrt3 handle0)\<bar> \<le> 2147483647 \<longrightarrow>
        sint (wUBeta handle0 ?V) = - (sint (beta ?V) * uint (PWMperiod handle0)) * 2
        \<and> sint (wY handle0 ?V) = (sint (wUBeta handle0 ?V) + sint (wUAlpha handle0 ?V)) sdiv 2
        \<and> sint (wZ handle0 ?V) = (sint (wUBeta handle0 ?V) - sint (wUAlpha handle0 ?V)) sdiv 2"
    by blast
  then have b: "sint (wUBeta handle0 ?V) = 819200"
    and y: "sint (wY handle0 ?V) = (sint (wUBeta handle0 ?V) + sint (wUAlpha handle0 ?V)) sdiv 2"
    and z: "sint (wZ handle0 ?V) = (sint (wUBeta handle0 ?V) - sint (wUAlpha handle0 ?V)) sdiv 2"
    unfolding h by simp_all
  show ?thesis
    unfolding x y z a b by (simp add: signed_divide_int_def)
qed

text \<open>
  For a bound sampling point operation \<open>f\<close>, the handle it receives is
  \<open>PWMC_SetPhaseVoltage_counters h V\<close>; its result and the handle it leaves are returned.
\<close>

lemma PWMC_SetPhaseVoltage_Some:
  "pFctSetADCSampPointSectX F = Some f \<Longrightarrow>
   PWMC_SetPhaseVoltage B F (Some h) V =
     Inr (fst (f (PWMC_SetPhaseVoltage_counters h V)),
          Some (snd (f (PWMC_SetPhaseVoltage_counters h V))), [SetADCSampPointSectX])"
  by (simp add: PWMC_SetPhaseVoltage_def on_handle_Some call_ret_def split: prod.split)

text \<open>
  With the sampling point operation of \<open>fct_bound\<close>, which returns 0 and leaves the handle
  as it is, the call returns the handle as the function itself has written it.
\<close>

lemma sampling_fct_bound: "pFctSetADCSampPointSectX fct_bound = Some (\<lambda>h. (0, h))"
  by (simp add: fct_bound_def)

lemma PWMC_SetPhaseVoltage_fct_bound:
  "PWMC_SetPhaseVoltage B fct_bound (Some h) V =
     Inr (0, Some (PWMC_SetPhaseVoltage_counters h V), [SetADCSampPointSectX])"
  by (simp add: PWMC_SetPhaseVoltage_Some [OF sampling_fct_bound])

text \<open>Of the six rows of sign tests exactly one holds.\<close>

lemma rows_exactly_one:
  fixes X Y Z :: int
  shows "length (filter (\<lambda>r. r)
          [Y < 0 \<and> Z < 0, Y < 0 \<and> 0 \<le> Z \<and> X \<le> 0, Y < 0 \<and> 0 \<le> Z \<and> 0 < X,
           0 \<le> Y \<and> 0 \<le> Z, 0 \<le> Y \<and> Z < 0 \<and> X \<le> 0, 0 \<le> Y \<and> Z < 0 \<and> 0 < X]) = 1"
  by (cases "Y < 0"; cases "Z < 0"; cases "X \<le> 0") simp_all

text \<open>The sector is not touched by the dead-time compensation.\<close>

lemma Sector_DTComp: "Sector (PWMC_SetPhaseVoltage_DTComp h) = Sector h"
  by (simp add: PWMC_SetPhaseVoltage_DTComp_def)

lemma Sector_duty:
  "Sector (PWMC_SetPhaseVoltage_duty h V) =
     fst (svpwm_sector (ucast (PWMperiod h)) (wX h V) (wY h V) (wZ h V))"
  by (simp add: PWMC_SetPhaseVoltage_duty_def split: prod.split)

lemma fst_svpwm_sector:
  "fst (svpwm_sector P X Y Z) =
     (if Y <s 0 then (if Z <s 0 then SECTOR_5 else if X \<le>s 0 then SECTOR_4 else SECTOR_3)
      else (if 0 \<le>s Z then SECTOR_2 else if X \<le>s 0 then SECTOR_6 else SECTOR_1))"
  by (simp add: svpwm_sector_def Let_def)

text \<open>
  Claim C2: for a handle that is not null and a bound sampling point operation \<open>f\<close>,
  \<open>PWMC_SetPhaseVoltage\<close> invokes \<open>f\<close>, once, on a handle \<open>h'\<close> whose sector follows the signs
  of \<open>wX\<close>, \<open>wY\<close>, \<open>wZ\<close> as in the table, and returns what \<open>f\<close> returns; the six rows
  exclude one another and cover every case (exactly one of them holds), so each input
  has exactly one of the sectors 1 to 6.
\<close>

theorem PWMC_SetPhaseVoltage_sector:
  assumes "pFctSetADCSampPointSectX F = Some f"
  shows "\<exists>h'. PWMC_SetPhaseVoltage B F (Some h) V =
            Inr (fst (f h'), Some (snd (f h')), [SetADCSampPointSectX])
   \<and> (sint (wY h V) < 0 \<and> sint (wZ h V) < 0 \<longrightarrow> Sector h' = SECTOR_5)
   \<and> (sint (wY h V) < 0 \<and> 0 \<le> sint (wZ h V) \<and> sint (wX h V) \<le> 0 \<longrightarrow> Sector h' = SECTOR_4)
   \<and> (sint (wY h V) < 0 \<and> 0 \<le> sint (wZ h V) \<and> 0 < sint (wX h V) \<longrightarrow> Sector h' = SECTOR_3)
   \<and> (0 \<le> sint (wY h V) \<and> 0 \<le> sint (wZ h V) \<longrightarrow> Sector h' = SECTOR_2)
   \<and> (0 \<le> sint (wY h V) \<and> sint (wZ h V) < 0 \<and> sint (wX h V) \<le> 0 \<longrightarrow> Sector h' = SECTOR_6)
   \<and> (0 \<le> sint (wY h V) \<and> sint (wZ h V) < 0 \<and> 0 < sint (wX h V) \<longrightarrow> Sector h' = SECTOR_1)
   \<and> length (filter (\<lambda>r. r)
        [sint (wY h V) < 0 \<and> sint (wZ h V) < 0,
         sint (wY h V) < 0 \<and> 0 \<le> sint (wZ h V) \<and> sint (wX h V) \<le> 0,
         sint (wY h V) < 0 \<and> 0 \<le> sint (wZ h V) \<and> 0 < sint (wX h V),
         0 \<le> sint (wY h V) \<and> 0 \<le> sint (wZ h V),
         0 \<le> sint (wY h V) \<and> sint (wZ h V) < 0 \<and> sint (wX h V) \<le> 0,
         0 \<le> sint (wY h V) \<and> sint (wZ h V) < 0 \<and> 0 < sint (wX h V)]) = 1"
proof -
  let ?h = "PWMC_SetPhaseVoltage_counters h V"
  have rows: "length (filter (\<lambda>r. r)
        [sint (wY h V) < 0 \<and> sint (wZ h V) < 0,
         sint (wY h V) < 0 \<and> 0 \<le> sint (wZ h V) \<and> sint (wX h V) \<le> 0,
         sint (wY h V) < 0 \<and> 0 \<le> sint (wZ h V) \<and> 0 < sint (wX h V),
         0 \<le> sint (wY h V) \<and> 0 \<le> sint (wZ h V),
         0 \<le> sint (wY h V) \<and> sint (wZ h V) < 0 \<and> sint (wX h V) \<le> 0,
         0 \<le> sint (wY h V) \<and> sint (wZ h V) < 0 \<and> 0 < sint (wX h V)]) = 1"
    by (rule rows_exactly_one)
  have sec: "Sector ?h =
      (if sint (wY h V) < 0
       then (if sint (wZ h V) < 0 then SECTOR_5
             else if sint (wX h V) \<le> 0 then SECTOR_4 else SECTOR_3)
       else (if 0 \<le> sint (wZ h V) then SECTOR_2
             else if sint (wX h V) \<le> 0 then SECTOR_6 else SECTOR_1))"
    by (simp add: PWMC_SetPhaseVoltage_counters_def Sector_DTComp Sector_duty fst_svpwm_sector
        word_sless_alt word_sle_eq)
  have run: "PWMC_SetPhaseVoltage B F (Some h) V =
      Inr (fst (f ?h), Some (snd (f ?h)), [SetADCSampPointSectX])"
    by (rule PWMC_SetPhaseVoltage_Some [OF assms])
  have tab: "(sint (wY h V) < 0 \<and> sint (wZ h V) < 0 \<longrightarrow> Sector ?h = SECTOR_5)
   \<and> (sint (wY h V) < 0 \<and> 0 \<le> sint (wZ h V) \<and> sint (wX h V) \<le> 0 \<longrightarrow> Sector ?h = SECTOR_4)
   \<and> (sint (wY h V) < 0 \<and> 0 \<le> sint (wZ h V) \<and> 0 < sint (wX h V) \<longrightarrow> Sector ?h = SECTOR_3)
   \<and> (0 \<le> sint (wY h V) \<and> 0 \<le> sint (wZ h V) \<longrightarrow> Sector ?h = SECTOR_2)
   \<and> (0 \<le> sint (wY h V) \<and> sint (wZ h V) < 0 \<and> sint (wX h V) \<le> 0 \<longrightarrow> Sector ?h = SECTOR_6)
   \<and> (0 \<le> sint (wY h V) \<and> sint (wZ h V) < 0 \<and> 0 < sint (wX h V) \<longrightarrow> Sector ?h = SECTOR_1)"
    unfolding sec by simp
  from run tab rows show ?thesis by blast
qed

theorem PWMC_SetPhaseVoltage_sector_witness:
  "(\<exists>h'. PWMC_SetPhaseVoltage build0 fct_bound (Some handle0) \<lparr>alpha = 1000, beta = - 100\<rparr>
            = Inr (0, Some h', [SetADCSampPointSectX]) \<and> Sector h' = SECTOR_1)
   \<and> (\<exists>h'. PWMC_SetPhaseVoltage build0 fct_bound (Some handle0) \<lparr>alpha = 0, beta = - 1000\<rparr>
            = Inr (0, Some h', [SetADCSampPointSectX]) \<and> Sector h' = SECTOR_2)
   \<and> (\<exists>h'. PWMC_SetPhaseVoltage build0 fct_bound (Some handle0) \<lparr>alpha = - 1000, beta = - 100\<rparr>
            = Inr (0, Some h', [SetADCSampPointSectX]) \<and> Sector h' = SECTOR_3)
   \<and> (\<exists>h'. PWMC_SetPhaseVoltage build0 fct_bound (Some handle0) \<lparr>alpha = - 1000, beta = 100\<rparr>
            = Inr (0, Some h', [SetADCSampPointSectX]) \<and> Sector h' = SECTOR_4)
   \<and> (\<exists>h'. PWMC_SetPhaseVoltage build0 fct_bound (Some handle0) \<lparr>alpha = 0, beta = 1000\<rparr>
            = Inr (0, Some h', [SetADCSampPointSectX]) \<and> Sector h' = SECTOR_5)
   \<and> (\<exists>h'. PWMC_SetPhaseVoltage build0 fct_bound (Some handle0) \<lparr>alpha = 1000, beta = 100\<rparr>
            = Inr (0, Some h', [SetADCSampPointSectX]) \<and> Sector h' = SECTOR_6)"
proof -
  have e: "\<And>a b. sint (wX handle0 \<lparr>alpha = a, beta = b\<rparr>) = sint (- (scast b * 4096) * 2 :: 32 word)"
    "\<And>a b. sint (wY handle0 \<lparr>alpha = a, beta = b\<rparr>) = sint (c_div (- (scast b * 4096) * 2 + scast a * 14189) 2)"
    "\<And>a b. sint (wZ handle0 \<lparr>alpha = a, beta = b\<rparr>) = sint (c_div (- (scast b * 4096) * 2 - scast a * 14189) 2)"
    by (simp_all add: wX_def wY_def wZ_def wUAlpha_def wUBeta_def handle0_def)
  note t = PWMC_SetPhaseVoltage_sector [OF sampling_fct_bound, of build0 handle0]
  have 1: "\<exists>h'. PWMC_SetPhaseVoltage build0 fct_bound (Some handle0) \<lparr>alpha = 1000, beta = - 100\<rparr>
            = Inr (0, Some h', [SetADCSampPointSectX]) \<and> Sector h' = SECTOR_1"
    using t [of "\<lparr>alpha = 1000, beta = - 100\<rparr>"] by (simp add: e c_div_def signed_divide_int_def)
  have 2: "\<exists>h'. PWMC_SetPhaseVoltage build0 fct_bound (Some handle0) \<lparr>alpha = 0, beta = - 1000\<rparr>
            = Inr (0, Some h', [SetADCSampPointSectX]) \<and> Sector h' = SECTOR_2"
    using t [of "\<lparr>alpha = 0, beta = - 1000\<rparr>"] by (simp add: e c_div_def signed_divide_int_def)
  have 3: "\<exists>h'. PWMC_SetPhaseVoltage build0 fct_bound (Some handle0) \<lparr>alpha = - 1000, beta = - 100\<rparr>
            = Inr (0, Some h', [SetADCSampPointSectX]) \<and> Sector h' = SECTOR_3"
    using t [of "\<lparr>alpha = - 1000, beta = - 100\<rparr>"] by (simp add: e c_div_def signed_divide_int_def)
  have 4: "\<exists>h'. PWMC_SetPhaseVoltage build0 fct_bound (Some handle0) \<lparr>alpha = - 1000, beta = 100\<rparr>
            = Inr (0, Some h', [SetADCSampPointSectX]) \<and> Sector h' = SECTOR_4"
    using t [of "\<lparr>alpha = - 1000, beta = 100\<rparr>"] by (simp add: e c_div_def signed_divide_int_def)
  have 5: "\<exists>h'. PWMC_SetPhaseVoltage build0 fct_bound (Some handle0) \<lparr>alpha = 0, beta = 1000\<rparr>
            = Inr (0, Some h', [SetADCSampPointSectX]) \<and> Sector h' = SECTOR_5"
    using t [of "\<lparr>alpha = 0, beta = 1000\<rparr>"] by (simp add: e c_div_def signed_divide_int_def)
  have 6: "\<exists>h'. PWMC_SetPhaseVoltage build0 fct_bound (Some handle0) \<lparr>alpha = 1000, beta = 100\<rparr>
            = Inr (0, Some h', [SetADCSampPointSectX]) \<and> Sector h' = SECTOR_6"
    using t [of "\<lparr>alpha = 1000, beta = 100\<rparr>"] by (simp add: e c_div_def signed_divide_int_def)
  from 1 2 3 4 5 6 show ?thesis by (intro conjI)
qed


subsection \<open>The counters and the PWM period\<close>

text \<open>
  On the integers: for a period \<open>P\<close>, \<open>wUAlpha = a\<close> and \<open>wUBeta = b\<close> with
  \<open>|a| \<le> 131072 * P\<close> and \<open>|b| \<le> 65536 * P\<close>, none of the three times exceeds \<open>P\<close>, in any
  sector.
\<close>

lemma svpwm_times_int_le:
  fixes P a b :: int
  assumes P: "0 \<le> P" and a: "\<bar>a\<bar> \<le> 131072 * P" and b: "\<bar>b\<bar> \<le> 65536 * P"
  shows "case svpwm_times_int P b ((b + a) sdiv 2) ((b - a) sdiv 2) of
           (A, B, C) \<Rightarrow> A \<le> P \<and> B \<le> P \<and> C \<le> P"
proof -
  define Y where "Y = (b + a) sdiv 2"
  define Z where "Z = (b - a) sdiv 2"
  define p where "p = P sdiv 4"
  define qy where "qy = Y sdiv 131072"
  define qz where "qz = Z sdiv 131072"
  define qx where "qx = b sdiv 131072"
  define q52 where "q52 = (Y - Z) sdiv 262144"
  define q41 where "q41 = (b - Z) sdiv 262144"
  define q36 where "q36 = (Y - b) sdiv 262144"
  have Y2: "b + a - 1 \<le> 2 * Y" "2 * Y \<le> b + a + 1"
    using sdiv2_near [of "b + a"] by (simp_all add: Y_def)
  have Z2: "b - a - 1 \<le> 2 * Z" "2 * Z \<le> b - a + 1"
    using sdiv2_near [of "b - a"] by (simp_all add: Z_def)
  have p4: "4 * p \<le> P"
    using sdiv_nonneg [of 4 P] P by (simp add: p_def)
  have ab: "a \<le> 131072 * P" "- a \<le> 131072 * P" "b \<le> 65536 * P" "- b \<le> 65536 * P"
    using a b by linarith+
  have up: "0 \<le> x \<Longrightarrow> D * (x sdiv D) \<le> x" if "0 < D" for x D :: int
    using sdiv_nonneg [of D x] that by simp
  have dn: "x \<le> 0 \<Longrightarrow> x \<le> D * (x sdiv D)" if "0 < D" for x D :: int
    using sdiv_nonpos [of D x] that by simp
  have ge0: "0 \<le> x \<Longrightarrow> 0 \<le> x sdiv D" if "0 < D" for x D :: int
    using sdiv_nonneg [of D x] that by simp
  have le0: "x \<le> 0 \<Longrightarrow> x sdiv D \<le> 0" if "0 < D" for x D :: int
    using sdiv_nonpos [of D x] that by simp
  consider (s5) "Y < 0" "Z < 0" | (s4) "Y < 0" "0 \<le> Z" "b \<le> 0" | (s3) "Y < 0" "0 \<le> Z" "0 < b"
    | (s2) "0 \<le> Y" "0 \<le> Z" | (s6) "0 \<le> Y" "Z < 0" "b \<le> 0" | (s1) "0 \<le> Y" "Z < 0" "0 < b"
    by linarith
  then have "case svpwm_times_int P b Y Z of (A, B, C) \<Rightarrow> A \<le> P \<and> B \<le> P \<and> C \<le> P"
  proof cases
    case s5
    have t: "svpwm_times_int P b Y Z = (p + q52, p + q52 + qz, p + q52 - qy)"
      using s5 by (simp add: svpwm_times_int_def Let_def p_def q52_def qz_def qy_def)
    have z: "qz \<le> 0" using le0 [of 131072 Z] s5 by (simp add: qz_def)
    have y: "Y \<le> 131072 * qy" using dn [of 131072 Y] s5 by (simp add: qy_def)
    have A: "p + q52 \<le> P" and C: "p + q52 - qy \<le> P"
    proof -
      show "p + q52 \<le> P"
      proof (cases "0 \<le> Y - Z")
        case True
        then have "262144 * q52 \<le> Y - Z" using up [of 262144 "Y - Z"] by (simp add: q52_def)
        then show ?thesis using Y2 Z2 p4 ab P by linarith
      next
        case False
        then have "q52 \<le> 0" using le0 [of 262144 "Y - Z"] by (simp add: q52_def)
        then show ?thesis using p4 P by linarith
      qed
      show "p + q52 - qy \<le> P"
      proof (cases "0 \<le> Y - Z")
        case True
        then have "262144 * q52 \<le> Y - Z" using up [of 262144 "Y - Z"] by (simp add: q52_def)
        then show ?thesis using Y2 Z2 p4 ab P y by linarith
      next
        case False
        then have "q52 \<le> 0" using le0 [of 262144 "Y - Z"] by (simp add: q52_def)
        then show ?thesis using Y2 p4 ab P y by linarith
      qed
    qed
    show ?thesis using A C z by (simp add: t)
  next
    case s2
    have t: "svpwm_times_int P b Y Z = (p + q52, p + q52 + qz, p + q52 - qy)"
      using s2 by (simp add: svpwm_times_int_def Let_def p_def q52_def qz_def qy_def)
    have y: "0 \<le> qy" using ge0 [of 131072 Y] s2 by (simp add: qy_def)
    have z: "131072 * qz \<le> Z" using up [of 131072 Z] s2 by (simp add: qz_def)
    have A: "p + q52 \<le> P" and B: "p + q52 + qz \<le> P"
    proof -
      show "p + q52 \<le> P"
      proof (cases "0 \<le> Y - Z")
        case True
        then have "262144 * q52 \<le> Y - Z" using up [of 262144 "Y - Z"] by (simp add: q52_def)
        then show ?thesis using Y2 Z2 p4 ab P by linarith
      next
        case False
        then have "q52 \<le> 0" using le0 [of 262144 "Y - Z"] by (simp add: q52_def)
        then show ?thesis using p4 P by linarith
      qed
      show "p + q52 + qz \<le> P"
      proof (cases "0 \<le> Y - Z")
        case True
        then have "262144 * q52 \<le> Y - Z" using up [of 262144 "Y - Z"] by (simp add: q52_def)
        then show ?thesis using Y2 Z2 p4 ab P z by linarith
      next
        case False
        then have "q52 \<le> 0" using le0 [of 262144 "Y - Z"] by (simp add: q52_def)
        then show ?thesis using Z2 p4 ab P z by linarith
      qed
    qed
    show ?thesis using A B y by (simp add: t)
  next
    case s4
    have t: "svpwm_times_int P b Y Z = (p + q41, p + q41 + qz, p + q41 + qz - qx)"
      using s4 by (simp add: svpwm_times_int_def Let_def p_def q41_def qz_def qx_def)
    have q: "q41 \<le> 0" using le0 [of 262144 "b - Z"] s4 by (simp add: q41_def)
    have z: "131072 * qz \<le> Z" using up [of 131072 Z] s4 by (simp add: qz_def)
    have x: "b \<le> 131072 * qx" using dn [of 131072 b] s4 by (simp add: qx_def)
    have "p + q41 \<le> P" using q p4 P by linarith
    moreover have "p + q41 + qz \<le> P" using q z Z2 p4 ab P by linarith
    moreover have "p + q41 + qz - qx \<le> P" using q z x Z2 p4 ab P by linarith
    ultimately show ?thesis by (simp add: t)
  next
    case s1
    have t: "svpwm_times_int P b Y Z = (p + q41, p + q41 + qz, p + q41 + qz - qx)"
      using s1 by (simp add: svpwm_times_int_def Let_def p_def q41_def qz_def qx_def)
    have q: "262144 * q41 \<le> b - Z" using up [of 262144 "b - Z"] s1 by (simp add: q41_def)
    have z: "qz \<le> 0" using le0 [of 131072 Z] s1 by (simp add: qz_def)
    have x: "0 \<le> qx" using ge0 [of 131072 b] s1 by (simp add: qx_def)
    have "p + q41 \<le> P" using q Z2 p4 ab P by linarith
    then show ?thesis using z x by (simp add: t)
  next
    case s3
    have t: "svpwm_times_int P b Y Z = (p + q36, p + q36 - qy + qx, p + q36 - qy)"
      using s3 by (simp add: svpwm_times_int_def Let_def p_def q36_def qy_def qx_def)
    have q: "q36 \<le> 0" using le0 [of 262144 "Y - b"] s3 by (simp add: q36_def)
    have y: "Y \<le> 131072 * qy" using dn [of 131072 Y] s3 by (simp add: qy_def)
    have x: "131072 * qx \<le> b" using up [of 131072 b] s3 by (simp add: qx_def)
    have "p + q36 \<le> P" using q p4 P by linarith
    moreover have "p + q36 - qy \<le> P" using q y Y2 p4 ab P by linarith
    moreover have "p + q36 - qy + qx \<le> P" using q y x Y2 p4 ab P by linarith
    ultimately show ?thesis by (simp add: t)
  next
    case s6
    have t: "svpwm_times_int P b Y Z = (p + q36, p + q36 - qy + qx, p + q36 - qy)"
      using s6 by (simp add: svpwm_times_int_def Let_def p_def q36_def qy_def qx_def)
    have q: "262144 * q36 \<le> Y - b" using up [of 262144 "Y - b"] s6 by (simp add: q36_def)
    have y: "0 \<le> qy" using ge0 [of 131072 Y] s6 by (simp add: qy_def)
    have x: "qx \<le> 0" using le0 [of 131072 b] s6 by (simp add: qx_def)
    have "p + q36 \<le> P" using q Y2 p4 ab P by linarith
    then show ?thesis using y x by (simp add: t)
  qed
  then show ?thesis by (simp add: Y_def Z_def)
qed

text \<open>The quotients are small, so that adding them never overflows.\<close>

lemma q18_range: "- 8192 \<le> sint (c_div u 262144) \<and> sint (c_div u 262144) \<le> 8192"
proof -
  have e: "sint (c_div u 262144) = sint u sdiv 262144" by (simp add: sint_c_div_numeral)
  show ?thesis
  proof (cases "0 \<le> sint u")
    case True
    then have "0 \<le> sint u sdiv 262144" "262144 * (sint u sdiv 262144) \<le> sint u"
      using sdiv_nonneg [of 262144 "sint u"] by simp_all
    then show ?thesis using sint32_range [of u] unfolding e by linarith
  next
    case False
    then have "sint u sdiv 262144 \<le> 0" "sint u \<le> 262144 * (sint u sdiv 262144)"
      using sdiv_nonpos [of 262144 "sint u"] by simp_all
    then show ?thesis using sint32_range [of u] unfolding e by linarith
  qed
qed

lemma q17_range: "- 16384 \<le> sint (c_div u 131072) \<and> sint (c_div u 131072) \<le> 16384"
proof -
  have e: "sint (c_div u 131072) = sint u sdiv 131072" by (simp add: sint_c_div_numeral)
  show ?thesis
  proof (cases "0 \<le> sint u")
    case True
    then have "0 \<le> sint u sdiv 131072" "131072 * (sint u sdiv 131072) \<le> sint u"
      using sdiv_nonneg [of 131072 "sint u"] by simp_all
    then show ?thesis using sint32_range [of u] unfolding e by linarith
  next
    case False
    then have "sint u sdiv 131072 \<le> 0" "sint u \<le> 131072 * (sint u sdiv 131072)"
      using sdiv_nonpos [of 131072 "sint u"] by simp_all
    then show ?thesis using sint32_range [of u] unfolding e by linarith
  qed
qed

lemma p4_range:
  "0 \<le> sint (c_div (ucast (P :: 16 word)) 4) \<and> sint (c_div (ucast P) 4) \<le> 16383"
proof -
  have e: "sint (c_div (ucast P) 4) = uint P sdiv 4"
    by (simp add: sint_c_div_numeral sint_ucast_16_32)
  have "0 \<le> uint P sdiv 4" "4 * (uint P sdiv 4) \<le> uint P"
    using sdiv_nonneg [of 4 "uint P"] by simp_all
  then show ?thesis using uint16_range [of P] unfolding e by linarith
qed

lemma sint_times:
  fixes p qa qb qc :: "32 word"
  assumes p: "0 \<le> sint p \<and> sint p \<le> 16383"
    and qa: "- 8192 \<le> sint qa \<and> sint qa \<le> 8192"
    and qb: "- 16384 \<le> sint qb \<and> sint qb \<le> 16384"
    and qc: "- 16384 \<le> sint qc \<and> sint qc \<le> 16384"
  shows "sint (p + qa) = sint p + sint qa"
    and "sint (p + qa + qb) = sint p + sint qa + sint qb"
    and "sint (p + qa - qc) = sint p + sint qa - sint qc"
    and "sint (p + qa + qb - qc) = sint p + sint qa + sint qb - sint qc"
    and "sint (p + qa - qc + qb) = sint p + sint qa - sint qc + sint qb"
proof -
  show a: "sint (p + qa) = sint p + sint qa"
    using p qa by (intro sint_add32) linarith+
  show ab: "sint (p + qa + qb) = sint p + sint qa + sint qb"
    using p qa qb sint_add32 [of "p + qa" qb] by (simp add: a)
  show ac: "sint (p + qa - qc) = sint p + sint qa - sint qc"
    using p qa qc sint_sub32 [of "p + qa" qc] by (simp add: a)
  show "sint (p + qa + qb - qc) = sint p + sint qa + sint qb - sint qc"
    using p qa qb qc sint_sub32 [of "p + qa + qb" qc] by (simp add: ab)
  show "sint (p + qa - qc + qb) = sint p + sint qa - sint qc + sint qb"
    using p qa qb qc sint_add32 [of "p + qa - qc" qb] by (simp add: ac)
qed

lemma svpwm_sector_sint:
  fixes X Y Z :: "32 word" and P :: "16 word"
  assumes YZ: "- 2147483648 \<le> sint Y - sint Z" "sint Y - sint Z \<le> 2147483647"
    and XZ: "- 2147483648 \<le> sint X - sint Z" "sint X - sint Z \<le> 2147483647"
    and YX: "- 2147483648 \<le> sint Y - sint X" "sint Y - sint X \<le> 2147483647"
  shows "case svpwm_sector (ucast P) X Y Z of
           (s, (A, B, C), lmh) \<Rightarrow>
             (sint A, sint B, sint C) = svpwm_times_int (uint P) (sint X) (sint Y) (sint Z)"
proof -
  note d = sint_sub32 [OF YZ] sint_sub32 [OF XZ] sint_sub32 [OF YX]
  note t = sint_times [OF p4_range q18_range q17_range q17_range]
  show ?thesis
    by (simp add: svpwm_sector_def svpwm_times_int_def Let_def word_sless_alt word_sle_eq t
        sint_c_div_numeral d sint_ucast_16_32)
qed


lemma sint_c_MAX_0: "sint (c_MAX A 0) = max (sint A) 0"
  by (simp add: c_MAX_def word_sless_alt max_def)

lemma clamp_le:
  fixes A :: "32 word" and P :: "16 word"
  assumes "sint A \<le> uint P"
  shows "(ucast (c_MAX A 0) :: 16 word) \<le> P"
proof -
  let ?w = "c_MAX A 0"
  have s: "0 \<le> sint ?w" "sint ?w \<le> uint P"
    using assms by (simp_all add: sint_c_MAX_0)
  have u: "uint ?w = sint ?w" using s(1) by (rule uint_of_nonneg_sint)
  have "uint (ucast ?w :: 16 word) = take_bit 16 (uint ?w)"
    by (simp add: unsigned_ucast_eq)
  also have "\<dots> = uint ?w"
    using s u uint16_range [of P] by (intro take_bit_int_eq_self) simp_all
  finally have "uint (ucast ?w :: 16 word) \<le> uint P" using s u by simp
  then show ?thesis by (simp add: word_le_def)
qed

lemma counters_no_DTComp:
  "DTTest h \<noteq> 1 \<Longrightarrow> PWMC_SetPhaseVoltage_counters h V = PWMC_SetPhaseVoltage_duty h V"
  by (simp add: PWMC_SetPhaseVoltage_counters_def PWMC_SetPhaseVoltage_DTComp_def
      PWMC_SetPhaseVoltage_duty_def split: prod.split)

lemma abs_beta_period:
  "\<bar>sint (b :: 16 word) * uint (P :: 16 word)\<bar> \<le> 32768 * uint P"
proof -
  have "\<bar>sint b\<bar> \<le> 32768" using sint16_range [of b] by linarith
  then have "\<bar>sint b\<bar> * uint P \<le> 32768 * uint P"
    by (intro mult_right_mono) simp_all
  then show ?thesis by (simp add: abs_mult)
qed

text \<open>Concrete runs of the duty computation, for a period of 4096.\<close>

lemma duty_beta_min:
  assumes "PWMperiod h = 4096"
  shows "PWMC_SetPhaseVoltage_duty h \<lparr>alpha = 0, beta = - 32767\<rparr> =
     h\<lparr>Sector := SECTOR_2, lowDuty := 2047, midDuty := 1024, highDuty := 1,
       CntPhA := 1024, CntPhB := 2047, CntPhC := 1\<rparr>"
proof -
  let ?V = "\<lparr>alpha = 0, beta = - 32767\<rparr>"
  have X: "wX h ?V = 268427264" and Y: "wY h ?V = 134213632" and Z: "wZ h ?V = 134213632"
    by (simp_all add: wX_def wY_def wZ_def wUAlpha_def wUBeta_def assms c_div_def
        signed_divide_int_def)
  have S: "svpwm_sector 4096 268427264 134213632 134213632 =
      (SECTOR_2, (1024, 2047, 1), (2047, 1024, 1))"
    by (simp add: svpwm_sector_def word_sless_alt word_sle_eq c_div_def signed_divide_int_def Let_def)
  show ?thesis
    by (simp add: PWMC_SetPhaseVoltage_duty_def X Y Z assms S c_MAX_def word_sless_alt)
qed


lemma duty_alpha_max:
  assumes "PWMperiod h = 4096" "hT_Sqrt3 h = 65535"
  shows "PWMC_SetPhaseVoltage_duty h \<lparr>alpha = 32767, beta = 0\<rparr> =
     h\<lparr>Sector := SECTOR_6, lowDuty := 5119, midDuty := 62464, highDuty := 62464,
       CntPhA := 5119, CntPhB := 0, CntPhC := 0\<rparr>"
proof -
  let ?V = "\<lparr>alpha = 32767, beta = 0\<rparr>"
  have X: "wX h ?V = 0" and Y: "wY h ?V = 1073692672" and Z: "wZ h ?V = - 1073692672"
    by (simp_all add: wX_def wY_def wZ_def wUAlpha_def wUBeta_def assms c_div_def
        signed_divide_int_def)
  have S: "svpwm_sector 4096 0 1073692672 (- 1073692672) =
      (SECTOR_6, (5119, - 3072, - 3072), (5119, - 3072, - 3072))"
    by (simp add: svpwm_sector_def word_sless_alt word_sle_eq c_div_def signed_divide_int_def Let_def)
  show ?thesis
    by (simp add: PWMC_SetPhaseVoltage_duty_def X Y Z assms S c_MAX_def word_sless_alt)
qed

lemma duty_overflow:
  assumes "PWMperiod h = 20000" "hT_Sqrt3 h = 39218"
  shows "PWMC_SetPhaseVoltage_duty h \<lparr>alpha = 32767, beta = 32767\<rparr> =
     h\<lparr>Sector := SECTOR_4, lowDuty := 29624, midDuty := 19625, highDuty := 13143,
       CntPhA := 13143, CntPhB := 19625, CntPhC := 29624\<rparr>"
proof -
  let ?V = "\<lparr>alpha = 32767, beta = 32767\<rparr>"
  have X: "wX h ?V = - 1310680000" and Y: "wY h ?V = - 12811897" and Z: "wZ h ?V = 849615545"
    by (simp_all add: wX_def wY_def wZ_def wUAlpha_def wUBeta_def assms c_div_def
        signed_divide_int_def)
  have S: "svpwm_sector 20000 (- 1310680000) (- 12811897) 849615545 =
      (SECTOR_4, (13143, 19625, 29624), (29624, 19625, 13143))"
    by (simp add: svpwm_sector_def word_sless_alt word_sle_eq c_div_def signed_divide_int_def Let_def)
  show ?thesis
    by (simp add: PWMC_SetPhaseVoltage_duty_def X Y Z assms S c_MAX_def word_sless_alt)
qed

lemma counters_frame:
  "PWMperiod (PWMC_SetPhaseVoltage_counters h V) = PWMperiod h"
  by (simp add: PWMC_SetPhaseVoltage_counters_def PWMC_SetPhaseVoltage_DTComp_def
      PWMC_SetPhaseVoltage_duty_def split: prod.split)

text \<open>
  Claim C7, as the claim has it, fails.  With dead-time compensation on, a counter whose
  time is below \<open>DTCompCnt\<close> and whose phase current is not positive wraps around in
  \<open>uint16_t\<close>: for a period of 4096, \<open>beta = -32767\<close> and a compensation of 10 the phase C
  counter is \<open>1 - 10 = 65527\<close>.  Nothing in the code relates \<open>hT_Sqrt3\<close> to the period: with
  \<open>hT_Sqrt3 = 65535\<close>, a period of 4096 and \<open>alpha = 32767\<close> the phase A counter is 5119.
  And for a long period the sums overflow \<open>int32_t\<close>: with a period of 20000,
  \<open>hT_Sqrt3 = 39218\<close> and \<open>alpha = beta = 32767\<close>, \<open>wUBeta - wUAlpha\<close> wraps around and the
  phase C counter is 29624.
\<close>

theorem counters_exceed_period:
  "(\<exists>h'. PWMC_SetPhaseVoltage build0 fct_bound (Some (handle0\<lparr>DTTest := 1\<rparr>))
            \<lparr>alpha = 0, beta = - 32767\<rparr> = Inr (0, Some h', [SetADCSampPointSectX])
         \<and> CntPhC h' = 65527 \<and> PWMperiod h' = 4096)
   \<and> (\<exists>h'. PWMC_SetPhaseVoltage build0 fct_bound (Some (handle0\<lparr>hT_Sqrt3 := 65535\<rparr>))
            \<lparr>alpha = 32767, beta = 0\<rparr> = Inr (0, Some h', [SetADCSampPointSectX])
         \<and> CntPhA h' = 5119 \<and> PWMperiod h' = 4096)
   \<and> (\<exists>h'. PWMC_SetPhaseVoltage build0 fct_bound
            (Some (handle0\<lparr>PWMperiod := 20000, hT_Sqrt3 := 39218\<rparr>))
            \<lparr>alpha = 32767, beta = 32767\<rparr> = Inr (0, Some h', [SetADCSampPointSectX])
         \<and> CntPhC h' = 29624 \<and> PWMperiod h' = 20000)"
proof -
  have p: "PWMperiod handle0 = 4096" by (simp add: handle0_def)
  have 1: "CntPhC (PWMC_SetPhaseVoltage_counters (handle0\<lparr>DTTest := 1\<rparr>) \<lparr>alpha = 0, beta = - 32767\<rparr>) = 65527"
    by (simp add: PWMC_SetPhaseVoltage_counters_def duty_beta_min p PWMC_SetPhaseVoltage_DTComp_def)
      (simp add: handle0_def)
  have 2: "CntPhA (PWMC_SetPhaseVoltage_counters (handle0\<lparr>hT_Sqrt3 := 65535\<rparr>) \<lparr>alpha = 32767, beta = 0\<rparr>) = 5119"
    by (simp add: PWMC_SetPhaseVoltage_counters_def duty_alpha_max p PWMC_SetPhaseVoltage_DTComp_def)
      (simp add: handle0_def)
  have 3: "CntPhC (PWMC_SetPhaseVoltage_counters (handle0\<lparr>PWMperiod := 20000, hT_Sqrt3 := 39218\<rparr>)
         \<lparr>alpha = 32767, beta = 32767\<rparr>) = 29624"
    by (simp add: PWMC_SetPhaseVoltage_counters_def duty_overflow PWMC_SetPhaseVoltage_DTComp_def)
      (simp add: handle0_def)
  show ?thesis
    by (simp add: PWMC_SetPhaseVoltage_fct_bound counters_frame 1 2 3 p)
qed

text \<open>
  Without dead-time compensation, with \<open>|alpha * hT_Sqrt3| \<le> 131072 * period\<close> and no
  overflow of \<open>int32_t\<close> in \<open>wUBeta + wUAlpha\<close> and \<open>wUBeta - wUAlpha\<close>, the three counters
  that the sampling point operation receives are at most the period.
\<close>

lemma counters_le_period:
  assumes dt: "DTTest h \<noteq> 1"
    and al: "\<bar>sint (alpha V) * uint (hT_Sqrt3 h)\<bar> \<le> 131072 * uint (PWMperiod h)"
    and ov: "2 * \<bar>sint (beta V) * uint (PWMperiod h)\<bar> + \<bar>sint (alpha V) * uint (hT_Sqrt3 h)\<bar>
               \<le> 2147483647"
  shows "CntPhA (PWMC_SetPhaseVoltage_counters h V) \<le> PWMperiod h
       \<and> CntPhB (PWMC_SetPhaseVoltage_counters h V) \<le> PWMperiod h
       \<and> CntPhC (PWMC_SetPhaseVoltage_counters h V) \<le> PWMperiod h"
proof -
  define P where "P = uint (PWMperiod h)"
  define a where "a = sint (alpha V) * uint (hT_Sqrt3 h)"
  define b where "b = - (sint (beta V) * uint (PWMperiod h)) * 2"
  define Y where "Y = (b + a) sdiv 2"
  define Z where "Z = (b - a) sdiv 2"
  have P0: "0 \<le> P" by (simp add: P_def)
  have a1: "\<bar>a\<bar> \<le> 131072 * P" using al by (simp add: a_def P_def)
  have bp: "\<bar>sint (beta V) * uint (PWMperiod h)\<bar> \<le> 32768 * P"
    unfolding P_def by (rule abs_beta_period)
  have b1: "\<bar>b\<bar> \<le> 65536 * P" using bp by (simp add: b_def)
  have ab: "\<bar>b\<bar> + \<bar>a\<bar> \<le> 2147483647" using ov by (simp add: a_def b_def)
  have sa: "sint (wUAlpha h V) = a" by (simp add: sint_wUAlpha a_def)
  have sb: "sint (wUBeta h V) = b"
    unfolding b_def using ov by (intro sint_wUBeta) linarith
  have sX: "sint (wX h V) = b" by (simp add: wX_def sb)
  have sY: "sint (wY h V) = Y"
  proof -
    have "sint (wUBeta h V + wUAlpha h V) = sint (wUBeta h V) + sint (wUAlpha h V)"
    proof (rule sint_add32)
      show "- 2147483648 \<le> sint (wUBeta h V) + sint (wUAlpha h V)"
        using ab unfolding sa sb by linarith
      show "sint (wUBeta h V) + sint (wUAlpha h V) \<le> 2147483647"
        using ab unfolding sa sb by linarith
    qed
    then show ?thesis by (simp add: wY_def sint_c_div_numeral sa sb Y_def)
  qed
  have sZ: "sint (wZ h V) = Z"
  proof -
    have "sint (wUBeta h V - wUAlpha h V) = sint (wUBeta h V) - sint (wUAlpha h V)"
    proof (rule sint_sub32)
      show "- 2147483648 \<le> sint (wUBeta h V) - sint (wUAlpha h V)"
        using ab unfolding sa sb by linarith
      show "sint (wUBeta h V) - sint (wUAlpha h V) \<le> 2147483647"
        using ab unfolding sa sb by linarith
    qed
    then show ?thesis by (simp add: wZ_def sint_c_div_numeral sa sb Z_def)
  qed
  have Ya: "\<bar>2 * Y\<bar> \<le> \<bar>b + a\<bar>" and Yn: "b + a - 1 \<le> 2 * Y" "2 * Y \<le> b + a + 1"
    using sdiv2_abs [of "b + a"] sdiv2_near [of "b + a"] by (simp_all add: Y_def)
  have Za: "\<bar>2 * Z\<bar> \<le> \<bar>b - a\<bar>" and Zn: "b - a - 1 \<le> 2 * Z" "2 * Z \<le> b - a + 1"
    using sdiv2_abs [of "b - a"] sdiv2_near [of "b - a"] by (simp_all add: Z_def)
  have YZ: "- 2147483648 \<le> sint (wY h V) - sint (wZ h V)" "sint (wY h V) - sint (wZ h V) \<le> 2147483647"
    unfolding sY sZ using Ya Za ab by linarith+
  have XZ: "- 2147483648 \<le> sint (wX h V) - sint (wZ h V)" "sint (wX h V) - sint (wZ h V) \<le> 2147483647"
    unfolding sX sZ using Zn ab by linarith+
  have YX: "- 2147483648 \<le> sint (wY h V) - sint (wX h V)" "sint (wY h V) - sint (wX h V) \<le> 2147483647"
    unfolding sX sY using Yn ab by linarith+
  obtain s A B C lmh where
    sec: "svpwm_sector (ucast (PWMperiod h)) (wX h V) (wY h V) (wZ h V) = (s, (A, B, C), lmh)"
    by (metis prod_cases3)
  from svpwm_sector_sint [OF YZ XZ YX, of "PWMperiod h"]
  have "(sint A, sint B, sint C) = svpwm_times_int P b ((b + a) sdiv 2) ((b - a) sdiv 2)"
    by (simp add: sec sX sY sZ P_def Y_def Z_def)
  with svpwm_times_int_le [OF P0 a1 b1]
  have le: "sint A \<le> P" "sint B \<le> P" "sint C \<le> P"
    by (auto split: prod.splits)
  have cnt: "CntPhA (PWMC_SetPhaseVoltage_counters h V) = ucast (c_MAX A 0)"
    "CntPhB (PWMC_SetPhaseVoltage_counters h V) = ucast (c_MAX B 0)"
    "CntPhC (PWMC_SetPhaseVoltage_counters h V) = ucast (c_MAX C 0)"
    by (simp_all add: counters_no_DTComp [OF dt] PWMC_SetPhaseVoltage_duty_def sec
        split: prod.split)
  show ?thesis
    unfolding cnt using le by (simp add: clamp_le P_def)
qed

text \<open>
  A period of at most 10922 ticks and \<open>hT_Sqrt3 \<le> 4 * period\<close> give both conditions, for
  every input vector.
\<close>

lemma scaling_sufficient:
  fixes al be P T :: "16 word"
  assumes P: "uint P \<le> 10922" and T: "uint T \<le> 4 * uint P"
  shows "\<bar>sint al * uint T\<bar> \<le> 131072 * uint P
       \<and> 2 * \<bar>sint be * uint P\<bar> + \<bar>sint al * uint T\<bar> \<le> 2147483647"
proof -
  have "\<bar>sint al * uint T\<bar> \<le> 32768 * uint T" by (rule abs_beta_period)
  then have a: "\<bar>sint al * uint T\<bar> \<le> 131072 * uint P" using T by linarith
  have b: "\<bar>sint be * uint P\<bar> \<le> 32768 * uint P" by (rule abs_beta_period)
  from a b P show ?thesis by linarith
qed

text \<open>
  Claim C7, amended: for a handle that is not null, a bound sampling point operation \<open>f\<close>
  and dead-time compensation off (\<open>DTTest\<close> not 1), \<open>PWMC_SetPhaseVoltage\<close> invokes \<open>f\<close> on
  a handle \<open>h'\<close> whose three counters are unsigned values of at most the PWM period,
  provided that \<open>|alpha * hT_Sqrt3| \<le> 131072 * period\<close> and that nothing overflows
  \<open>int32_t\<close> in \<open>wUBeta + wUAlpha\<close> and \<open>wUBeta - wUAlpha\<close>
  (\<open>2 * |beta * period| + |alpha * hT_Sqrt3| \<le> 2147483647\<close>).  Both conditions hold for
  every \<open>alpha\<close> and \<open>beta\<close> when the period is at most 10922 and \<open>hT_Sqrt3 \<le> 4 * period\<close>.
\<close>

theorem PWMC_SetPhaseVoltage_counters_bounded:
  assumes f: "pFctSetADCSampPointSectX F = Some f"
    and dt: "DTTest h \<noteq> 1"
  shows "\<exists>h'. PWMC_SetPhaseVoltage B F (Some h) V =
            Inr (fst (f h'), Some (snd (f h')), [SetADCSampPointSectX])
       \<and> PWMperiod h' = PWMperiod h
       \<and> (\<bar>sint (alpha V) * uint (hT_Sqrt3 h)\<bar> \<le> 131072 * uint (PWMperiod h)
            \<and> 2 * \<bar>sint (beta V) * uint (PWMperiod h)\<bar> + \<bar>sint (alpha V) * uint (hT_Sqrt3 h)\<bar>
                 \<le> 2147483647 \<longrightarrow>
          CntPhA h' \<le> PWMperiod h \<and> CntPhB h' \<le> PWMperiod h \<and> CntPhC h' \<le> PWMperiod h)
       \<and> (uint (PWMperiod h) \<le> 10922 \<and> uint (hT_Sqrt3 h) \<le> 4 * uint (PWMperiod h) \<longrightarrow>
          \<bar>sint (alpha V) * uint (hT_Sqrt3 h)\<bar> \<le> 131072 * uint (PWMperiod h)
            \<and> 2 * \<bar>sint (beta V) * uint (PWMperiod h)\<bar> + \<bar>sint (alpha V) * uint (hT_Sqrt3 h)\<bar>
                 \<le> 2147483647)"
proof -
  let ?h = "PWMC_SetPhaseVoltage_counters h V"
  have run: "PWMC_SetPhaseVoltage B F (Some h) V =
      Inr (fst (f ?h), Some (snd (f ?h)), [SetADCSampPointSectX])"
    by (rule PWMC_SetPhaseVoltage_Some [OF f])
  have per: "PWMperiod ?h = PWMperiod h" by (rule counters_frame)
  have le: "\<bar>sint (alpha V) * uint (hT_Sqrt3 h)\<bar> \<le> 131072 * uint (PWMperiod h)
            \<and> 2 * \<bar>sint (beta V) * uint (PWMperiod h)\<bar> + \<bar>sint (alpha V) * uint (hT_Sqrt3 h)\<bar>
                 \<le> 2147483647 \<longrightarrow>
          CntPhA ?h \<le> PWMperiod h \<and> CntPhB ?h \<le> PWMperiod h \<and> CntPhC ?h \<le> PWMperiod h"
    using counters_le_period [OF dt, of V] by blast
  have su: "uint (PWMperiod h) \<le> 10922 \<and> uint (hT_Sqrt3 h) \<le> 4 * uint (PWMperiod h) \<longrightarrow>
          \<bar>sint (alpha V) * uint (hT_Sqrt3 h)\<bar> \<le> 131072 * uint (PWMperiod h)
            \<and> 2 * \<bar>sint (beta V) * uint (PWMperiod h)\<bar> + \<bar>sint (alpha V) * uint (hT_Sqrt3 h)\<bar>
                 \<le> 2147483647"
    using scaling_sufficient [of "PWMperiod h" "hT_Sqrt3 h" "alpha V" "beta V"] by blast
  from run per le su show ?thesis by blast
qed

theorem PWMC_SetPhaseVoltage_counters_bounded_witness:
  "(\<exists>h'. PWMC_SetPhaseVoltage build0 fct_bound (Some handle0) \<lparr>alpha = 0, beta = - 2048\<rparr>
            = Inr (0, Some h', [SetADCSampPointSectX])
         \<and> PWMperiod h' = 4096 \<and> CntPhA h' \<le> 4096 \<and> CntPhB h' \<le> 4096 \<and> CntPhC h' \<le> 4096)
   \<and> (\<exists>h'. PWMC_SetPhaseVoltage build0 fct_bound (Some handle0) \<lparr>alpha = - 32768, beta = - 32768\<rparr>
            = Inr (0, Some h', [SetADCSampPointSectX])
         \<and> PWMperiod h' = 4096 \<and> CntPhA h' \<le> 4096 \<and> CntPhB h' \<le> 4096 \<and> CntPhC h' \<le> 4096)"
proof -
  have h: "DTTest handle0 \<noteq> 1"
    and p: "PWMperiod handle0 = 4096" "uint (PWMperiod handle0) = 4096"
      "uint (hT_Sqrt3 handle0) = 14189"
    by (simp_all add: handle0_def)
  note t = PWMC_SetPhaseVoltage_counters_bounded [OF sampling_fct_bound h, of build0]
  have 1: "\<exists>h'. PWMC_SetPhaseVoltage build0 fct_bound (Some handle0) \<lparr>alpha = 0, beta = - 2048\<rparr>
            = Inr (0, Some h', [SetADCSampPointSectX])
         \<and> PWMperiod h' = 4096 \<and> CntPhA h' \<le> 4096 \<and> CntPhB h' \<le> 4096 \<and> CntPhC h' \<le> 4096"
    using t [of "\<lparr>alpha = 0, beta = - 2048\<rparr>"] by (simp add: p)
  have 2: "\<exists>h'. PWMC_SetPhaseVoltage build0 fct_bound (Some handle0) \<lparr>alpha = - 32768, beta = - 32768\<rparr>
            = Inr (0, Some h', [SetADCSampPointSectX])
         \<and> PWMperiod h' = 4096 \<and> CntPhA h' \<le> 4096 \<and> CntPhB h' \<le> 4096 \<and> CntPhC h' \<le> 4096"
    using t [of "\<lparr>alpha = - 32768, beta = - 32768\<rparr>"] by (simp add: p)
  from 1 2 show ?thesis by (intro conjI)
qed


subsection \<open>Dead-time compensation\<close>









section \<open>Properties of the low-pass filter\<close>

lemma lowpass_run_zero:
  "\<not> FULL_MISRA_C_COMPLIANCY_PWM_CURR B \<Longrightarrow>
   lowpass_run B 0 (Some acc) inps = Inr (replicate (length inps) (c_shr acc 15), Some acc)"
  by (induction inps) (simp_all add: PWMC_LowPassFilter_def)

lemma sint_lowpass_acc:
  "sint (acc + (inp - c_shr acc 15) * t) =
     signed_take_bit 31 (sint acc + (sint inp - sint acc div 32768) * sint t)"
proof -
  have "sint (acc + (inp - c_shr acc 15) * t) =
      signed_take_bit 31 (sint acc + (sint inp - sint (c_shr acc 15)) * sint t)"
    by (simp only: word32_as_int sint32_signed_take_bit)
  then show ?thesis by (simp add: sint_c_shr)
qed

text \<open>
  Claim C8 (for the build without \<open>FULL_MISRA_C_COMPLIANCY_PWM_CURR\<close>, which is the one
  that shifts): the buffer becomes \<open>acc + (in - (acc >> 15)) * t\<close>, in \<open>int32_t\<close> arithmetic
  with an arithmetic shift, and the function returns the new buffer shifted right by 15.
  With \<open>t = 0\<close>, whatever the inputs, the buffer keeps its initial value and every output
  is that value shifted right by 15.
\<close>

theorem PWMC_LowPassFilter_update:
  assumes "\<not> FULL_MISRA_C_COMPLIANCY_PWM_CURR B"
  shows "PWMC_LowPassFilter B inp (Some acc) t =
           Inr (c_shr (acc + (inp - c_shr acc 15) * t) 15, Some (acc + (inp - c_shr acc 15) * t))
       \<and> sint (acc + (inp - c_shr acc 15) * t) =
           signed_take_bit 31 (sint acc + (sint inp - sint acc div 32768) * sint t)
       \<and> sint (c_shr (acc + (inp - c_shr acc 15) * t) 15) =
           sint (acc + (inp - c_shr acc 15) * t) div 32768
       \<and> lowpass_run B 0 (Some acc) inps = Inr (replicate (length inps) (c_shr acc 15), Some acc)"
proof (intro conjI)
  show "PWMC_LowPassFilter B inp (Some acc) t =
           Inr (c_shr (acc + (inp - c_shr acc 15) * t) 15, Some (acc + (inp - c_shr acc 15) * t))"
    using assms by (simp add: PWMC_LowPassFilter_def Let_def)
  show "sint (acc + (inp - c_shr acc 15) * t) =
           signed_take_bit 31 (sint acc + (sint inp - sint acc div 32768) * sint t)"
    by (rule sint_lowpass_acc)
  show "sint (c_shr (acc + (inp - c_shr acc 15) * t) 15) =
           sint (acc + (inp - c_shr acc 15) * t) div 32768"
    by (simp add: sint_c_shr)
  show "lowpass_run B 0 (Some acc) inps = Inr (replicate (length inps) (c_shr acc 15), Some acc)"
    using assms by (rule lowpass_run_zero)
qed

theorem PWMC_LowPassFilter_update_witness:
  "PWMC_LowPassFilter build0 100 (Some 65536) 3 = Inr (2, Some 65830)
   \<and> PWMC_LowPassFilter build0 0 (Some (- 1)) 1 = Inr (0, Some 0)
   \<and> lowpass_run build0 0 (Some (- 40000)) [5, - 7, 1000] = Inr ([- 2, - 2, - 2], Some (- 40000))"
proof -
  have m: "\<not> FULL_MISRA_C_COMPLIANCY_PWM_CURR build0" by (simp add: build0_def)
  have e: "c_shr 65536 15 = 2" "c_shr 65830 15 = 2" "c_shr (- 1) 15 = - 1" "c_shr 0 15 = 0"
    "c_shr (- 40000) 15 = - 2"
    by (simp_all add: c_shr_eval)
  from PWMC_LowPassFilter_update [OF m, of 100 65536 3 "[]"]
  have 1: "PWMC_LowPassFilter build0 100 (Some 65536) 3 = Inr (2, Some 65830)"
    by (simp add: e)
  from PWMC_LowPassFilter_update [OF m, of 0 "- 1" 1 "[]"]
  have 2: "PWMC_LowPassFilter build0 0 (Some (- 1)) 1 = Inr (0, Some 0)"
    by (simp add: e)
  from PWMC_LowPassFilter_update [OF m, of 0 "- 40000" 0 "[5, - 7, 1000]"]
  have 3: "lowpass_run build0 0 (Some (- 40000)) [5, - 7, 1000] = Inr ([- 2, - 2, - 2], Some (- 40000))"
    by (simp add: e)
  from 1 2 3 show ?thesis by simp
qed

end
